theory Spec2Isabelle
  imports Complex_Main "HOL-Library.Word" "HOL-Library.Log_Nat"
begin

section \<open>The batchnorm inference client example\<close>

text \<open>
  The development embeds \<^verbatim>\<open>main\<close> of
  \<^verbatim>\<open>client_example/13_batchnorm/batchnorm_infer_nhwc.cpp\<close>: the set-up of the problem
  (lengths, strides, the aligned stride array), the loop that profiles every device
  operation instance, and the untimed run of the best instance.

  Conventions of the model.
  \<^item> \<^verbatim>\<open>ck::index_t\<close> (a 32-bit signed integer) is \<open>int\<close>; signed overflow is undefined
    in C++, so nothing wraps, and the values of this program are shown to fit.
  \<^item> \<^verbatim>\<open>std::size_t\<close> is a 64-bit word.
  \<^item> An elapsed time is the real number a finite \<^verbatim>\<open>float\<close> denotes; the program only
    compares elapsed times, which is exact. An infinite or NaN elapsed time is outside
    the model.
  \<^item> The throughput is the one value the program computes in floating point. It is
    computed as the program does: the byte count converted to \<^verbatim>\<open>double\<close>, two divisions
    in \<^verbatim>\<open>double\<close>, and the narrowing to \<^verbatim>\<open>float\<close>, each rounded to nearest, ties to even, as
    IEEE 754 prescribes for binary64 and binary32.
  \<^item> Device buffers are the addresses \<^verbatim>\<open>hipMalloc\<close> stored, taken as parameters.
  \<^item> The device operation instances come from a factory that is not part of the example;
    an instance is the record of what its virtual member functions answer.
  \<^item> What the program does to the outside (calls on an instance, lines printed) is an
    event list; how it ends is an outcome.
  \<^item> The \<^verbatim>\<open>assert\<close> of the set-up is taken as compiled in (no \<^verbatim>\<open>NDEBUG\<close>).
  \<^item> The counter of the profiling loop is an \<^verbatim>\<open>int\<close> compared with the size of the vector;
    the model counts in \<open>nat\<close>, which is the same for fewer than \<open>2\<^sup>3\<^sup>1\<close> instances.
\<close>

subsection \<open>Types and constants\<close>

type_synonym index_t = int

definition sizeof_XDataType :: nat where "sizeof_XDataType = 4"
definition sizeof_YDataType :: nat where "sizeof_YDataType = 4"
definition sizeof_ScaleDataType :: nat where "sizeof_ScaleDataType = 4"
definition sizeof_BiasDataType :: nat where "sizeof_BiasDataType = 4"
definition sizeof_MeanVarDataType :: nat where "sizeof_MeanVarDataType = 4"

definition Rank :: nat where "Rank = 4"
definition NumBatchNormReduceDim :: nat where "NumBatchNormReduceDim = 3"

text \<open>\<^verbatim>\<open>std::numeric_limits<float>::epsilon()\<close> and \<^verbatim>\<open>std::numeric_limits<float>::max()\<close>.\<close>

definition epsilon :: real where "epsilon = 1 / 2 ^ 23"
definition FLT_MAX :: real where "FLT_MAX = (2 ^ 24 - 1) * 2 ^ 104"

datatype Normalize = Normalize real

datatype error = LaunchFailure | AssertionFailure | IndexOutOfRange

datatype outcome = Returned int | Aborted error

subsection \<open>Floating-point values\<close>

text \<open>A value of type \<^verbatim>\<open>double\<close> or \<^verbatim>\<open>float\<close>: the real number it denotes, or \<open>NonFinite\<close>
  for an infinity or a NaN (which of them is not recorded: the sign of a zero divisor,
  which decides it, is not part of a real number).\<close>

datatype fp = Finite real | NonFinite

text \<open>The binary exponent of a positive real: the \<open>e\<close> with \<open>2\<^sup>e \<le> x < 2\<^sup>e\<^sup>+\<^sup>1\<close>.\<close>

definition ilog2 :: "real \<Rightarrow> int" where
  "ilog2 x = (if 1 \<le> x then bitlen \<lfloor>x\<rfloor> - 1 else - bitlen (\<lceil>1 / x\<rceil> - 1))"

text \<open>Rounding to the nearest integer, ties to the even one.\<close>

definition round_nearest_even :: "real \<Rightarrow> int" where
  "round_nearest_even m =
     (let f = \<lfloor>m\<rfloor>; r = m - of_int f
      in if r < 1 / 2 then f else if 1 / 2 < r then f + 1 else if even f then f else f + 1)"

text \<open>Rounding of a real to the binary format with \<open>p\<close> digits of precision and the
  exponents \<open>emin\<close> to \<open>emax\<close>: the spacing of the format at \<open>x\<close> is \<open>2\<^sup>e\<^sup>-\<^sup>p\<^sup>+\<^sup>1\<close>, with \<open>e\<close>
  the exponent of \<open>x\<close> and at least \<open>emin\<close> (below it the subnormal numbers keep the
  spacing of \<open>emin\<close>); a result of magnitude \<open>2\<^sup>e\<^sup>m\<^sup>a\<^sup>x\<^sup>+\<^sup>1\<close> or more overflows to an infinity.\<close>

definition ieee_round :: "nat \<Rightarrow> int \<Rightarrow> int \<Rightarrow> real \<Rightarrow> fp" where
  "ieee_round p emin emax x =
     (if x = 0 then Finite 0
      else (let e = max (ilog2 \<bar>x\<bar>) emin;
                q = power_int 2 (e - int p + 1);
                y = of_int (round_nearest_even (\<bar>x\<bar> / q)) * q
            in if power_int 2 (emax + 1) \<le> y then NonFinite else Finite (sgn x * y)))"

text \<open>binary64 and binary32.\<close>

definition to_double :: "real \<Rightarrow> fp" where
  "to_double x = ieee_round 53 (- 1022) 1023 x"

definition to_float :: "real \<Rightarrow> fp" where
  "to_float x = ieee_round 24 (- 126) 127 x"

text \<open>Division of a \<^verbatim>\<open>double\<close> by a finite \<^verbatim>\<open>double\<close>: by zero it gives an infinity or a NaN,
  and so does a dividend that is one.\<close>

fun div_double :: "fp \<Rightarrow> real \<Rightarrow> fp" where
  "div_double (Finite a) b = (if b = 0 then NonFinite else to_double (a / b))"
| "div_double NonFinite b = NonFinite"

text \<open>The conversion of a \<^verbatim>\<open>double\<close> to \<^verbatim>\<open>float\<close>.\<close>

fun float_of_double :: "fp \<Rightarrow> fp" where
  "float_of_double (Finite a) = to_float a"
| "float_of_double NonFinite = NonFinite"

subsection \<open>The data of the program\<close>

text \<open>\<^verbatim>\<open>StreamConfig{stream, time_kernel}\<close>; the null stream is \<open>None\<close>.\<close>

record StreamConfig =
  stream_id :: "nat option"
  time_kernel :: bool

text \<open>What \<^verbatim>\<open>MakeArgumentPointer\<close> is given: lengths, the strides of the five inputs and of
  the output, the input and output buffers, and the elementwise operation.\<close>

record argument =
  arg_lengths :: "index_t list"
  arg_in_strides :: "index_t list list"
  arg_out_strides :: "index_t list list"
  arg_in_buffers :: "nat list"
  arg_out_buffers :: "nat list"
  arg_elementwise_op :: Normalize

text \<open>The two places where the program asks an instance whether it supports the
  argument: in the profiling loop and before the run of the best instance. An instance is
  reached through a pointer to an abstract class, so its answer is taken per place of
  call; an instance whose answer never changes ignores the phase.\<close>

datatype phase = Profiling | Production

text \<open>\<^verbatim>\<open>Run\<close> returns the elapsed time, or fails (it throws).\<close>

record device_op =
  GetTypeString :: string
  IsSupportedArgument :: "phase \<Rightarrow> argument \<Rightarrow> bool"
  Run :: "argument \<Rightarrow> StreamConfig \<Rightarrow> error + real"

datatype event =
    Call_IsSupportedArgument nat phase argument bool
  | Call_Run nat argument StreamConfig
  | Print_Found nat
  | Print_RunAll
  | Print_Perf real fp string
  | Print_NotSupported string
  | Print_BestPerf real fp string
  | Print_RunBest string
  | Print_Done

text \<open>The local variables of \<^verbatim>\<open>main\<close> that are live when the profiling loop starts.\<close>

record locals =
  xyLengths :: "index_t list"
  xyStrides :: "index_t list"
  aligned_scaleBiasMeanVarStrides :: "index_t list"
  numXYElement :: index_t
  numScaleBiasMeanVarElement :: index_t
  x_buf :: nat
  y_buf :: nat
  scale_buf :: nat
  bias_buf :: nat
  mean_buf :: nat
  variance_buf :: nat

text \<open>The six device buffers, in the order of their declaration.\<close>

record buffers =
  buf_x :: nat
  buf_y :: nat
  buf_scale :: nat
  buf_bias :: nat
  buf_mean :: nat
  buf_variance :: nat

text \<open>The variables the profiling loop updates.\<close>

record best =
  found :: bool
  best_op_id :: int
  best_op_name :: string
  best_ave_time :: real
  best_gb_per_sec :: fp

subsection \<open>Set-up of the problem\<close>

definition main_xyLengths :: "index_t list" where
  "main_xyLengths = [16, 8, 128, 256]"

definition main_xyStrides :: "index_t list" where
  "main_xyStrides = [8 * 128 * 256, 128 * 256, 256, 1]"

definition main_scaleBiasMeanVarLengths :: "index_t list" where
  "main_scaleBiasMeanVarLengths = [256]"

definition main_scaleBiasMeanVarStrides :: "index_t list" where
  "main_scaleBiasMeanVarStrides = [1]"

definition main_reduceDims :: "int list" where
  "main_reduceDims = [0, 1, 2]"

definition main_invariantDims :: "int list" where
  "main_invariantDims = [3]"

text \<open>\<^verbatim>\<open>std::accumulate(b, e, 1, std::multiplies<ck::index_t>())\<close>.\<close>

definition accumulate_mul :: "index_t list \<Rightarrow> index_t" where
  "accumulate_mul xs = foldl (\<lambda>acc x. acc * x) 1 xs"

text \<open>The loop over \<^verbatim>\<open>invariantDims\<close> that fills \<^verbatim>\<open>aligned_scaleBiasMeanVarStrides\<close>; \<open>i\<close> is
  the counter of the source. The assertion is a branch of the model, and so is every
  read or write outside an array (undefined in C++).\<close>

fun align_loop ::
  "index_t list \<Rightarrow> index_t list \<Rightarrow> index_t list \<Rightarrow> int list \<Rightarrow> nat \<Rightarrow> index_t list
     \<Rightarrow> error + index_t list" where
  "align_loop xyL sL sS [] i aligned = Inr aligned"
| "align_loop xyL sL sS (dim' # dims) i aligned =
     (if dim' < 0 \<or> length xyL \<le> nat dim' \<or> length sL \<le> i then Inl IndexOutOfRange
      else if xyL ! nat dim' \<noteq> sL ! i then Inl AssertionFailure
      else if length aligned \<le> nat dim' \<or> length sS \<le> i then Inl IndexOutOfRange
      else align_loop xyL sL sS dims (Suc i) (aligned[nat dim' := sS ! i]))"

text \<open>\<^verbatim>\<open>std::array<ck::index_t, Rank> aligned_scaleBiasMeanVarStrides{0}\<close> followed by the
  loop.\<close>

definition align_strides ::
  "nat \<Rightarrow> index_t list \<Rightarrow> index_t list \<Rightarrow> index_t list \<Rightarrow> int list \<Rightarrow> error + index_t list" where
  "align_strides rank xyL sL sS dims = align_loop xyL sL sS dims 0 (replicate rank 0)"

definition main_locals :: "buffers \<Rightarrow> index_t list \<Rightarrow> locals" where
  "main_locals b aligned =
     \<lparr> xyLengths = main_xyLengths,
       xyStrides = main_xyStrides,
       aligned_scaleBiasMeanVarStrides = aligned,
       numXYElement = accumulate_mul main_xyLengths,
       numScaleBiasMeanVarElement = accumulate_mul main_scaleBiasMeanVarLengths,
       x_buf = buf_x b, y_buf = buf_y b, scale_buf = buf_scale b, bias_buf = buf_bias b,
       mean_buf = buf_mean b, variance_buf = buf_variance b \<rparr>"

subsection \<open>The two constructions of the argument\<close>

text \<open>The call of \<^verbatim>\<open>MakeArgumentPointer\<close> in the profiling loop.\<close>

definition make_argument_profiling :: "locals \<Rightarrow> argument" where
  "make_argument_profiling l =
     \<lparr> arg_lengths = xyLengths l,
       arg_in_strides = [xyStrides l,
                         aligned_scaleBiasMeanVarStrides l,
                         aligned_scaleBiasMeanVarStrides l,
                         aligned_scaleBiasMeanVarStrides l,
                         aligned_scaleBiasMeanVarStrides l],
       arg_out_strides = [xyStrides l],
       arg_in_buffers = [x_buf l, mean_buf l, variance_buf l, scale_buf l, bias_buf l],
       arg_out_buffers = [y_buf l],
       arg_elementwise_op = Normalize epsilon \<rparr>"

text \<open>The call of \<^verbatim>\<open>MakeArgumentPointer\<close> before the run of the best instance.\<close>

definition make_argument_production :: "locals \<Rightarrow> argument" where
  "make_argument_production l =
     \<lparr> arg_lengths = xyLengths l,
       arg_in_strides = [xyStrides l,
                         aligned_scaleBiasMeanVarStrides l,
                         aligned_scaleBiasMeanVarStrides l,
                         aligned_scaleBiasMeanVarStrides l,
                         aligned_scaleBiasMeanVarStrides l],
       arg_out_strides = [xyStrides l],
       arg_in_buffers = [x_buf l, mean_buf l, variance_buf l, scale_buf l, bias_buf l],
       arg_out_buffers = [y_buf l],
       arg_elementwise_op = Normalize epsilon \<rparr>"

subsection \<open>The profiling loop\<close>

definition timed :: StreamConfig where
  "timed = \<lparr> stream_id = None, time_kernel = True \<rparr>"

definition untimed :: StreamConfig where
  "untimed = \<lparr> stream_id = None, time_kernel = False \<rparr>"

text \<open>\<^verbatim>\<open>num_bytes\<close>, computed in \<^verbatim>\<open>std::size_t\<close>.\<close>

definition num_bytes :: "locals \<Rightarrow> 64 word" where
  "num_bytes l =
     of_int (numXYElement l) * (of_nat sizeof_XDataType + of_nat sizeof_YDataType) +
     of_int (numScaleBiasMeanVarElement l) *
       (of_nat sizeof_ScaleDataType + of_nat sizeof_BiasDataType +
        of_nat sizeof_MeanVarDataType + of_nat sizeof_MeanVarDataType)"

text \<open>\<^verbatim>\<open>float gb_per_sec = num_bytes / 1.E6 / ave_time\<close>: \<^verbatim>\<open>num_bytes\<close> is converted to
  \<^verbatim>\<open>double\<close>, divided by the \<^verbatim>\<open>double\<close> \<open>10\<^sup>6\<close>, divided by \<^verbatim>\<open>ave_time\<close> (a \<^verbatim>\<open>float\<close>, which
  is a \<^verbatim>\<open>double\<close> as it stands), and the quotient is narrowed to \<^verbatim>\<open>float\<close>.\<close>

definition gb_per_sec_of :: "64 word \<Rightarrow> real \<Rightarrow> fp" where
  "gb_per_sec_of nb ave_time =
     float_of_double (div_double (div_double (to_double (real (unat nb))) 1000000) ave_time)"

definition best_init :: best where
  "best_init = \<lparr> found = False, best_op_id = - 1, best_op_name = [],
                 best_ave_time = FLT_MAX, best_gb_per_sec = Finite 0 \<rparr>"

text \<open>One iteration of the loop, for the instance \<open>p\<close> at index \<open>i\<close>. The result is the
  failure that left the loop (if any), the updated variables and the events of the
  iteration. The source has no handler around \<^verbatim>\<open>Run\<close>: a failure leaves \<^verbatim>\<open>main\<close>.\<close>

definition profile_body ::
  "locals \<Rightarrow> nat \<Rightarrow> device_op \<Rightarrow> best \<Rightarrow> error option \<times> best \<times> event list" where
  "profile_body l i p st =
     (let argument_ptr = make_argument_profiling l;
          op_name = GetTypeString p
      in if IsSupportedArgument p Profiling argument_ptr
         then (case Run p argument_ptr timed of
                 Inl e \<Rightarrow>
                   (Some e, st,
                    [Call_IsSupportedArgument i Profiling argument_ptr True,
                     Call_Run i argument_ptr timed])
               | Inr ave_time \<Rightarrow>
                   (let gb_per_sec = gb_per_sec_of (num_bytes l) ave_time;
                        evs = [Call_IsSupportedArgument i Profiling argument_ptr True,
                               Call_Run i argument_ptr timed,
                               Print_Perf ave_time gb_per_sec op_name]
                    in if ave_time < best_ave_time st
                       then (None,
                             st\<lparr> found := True, best_op_id := int i, best_op_name := op_name,
                                 best_ave_time := ave_time, best_gb_per_sec := gb_per_sec \<rparr>,
                             evs)
                       else (None, st, evs)))
         else (None, st,
               [Call_IsSupportedArgument i Profiling argument_ptr False,
                Print_NotSupported op_name]))"

fun profile_loop ::
  "locals \<Rightarrow> device_op list \<Rightarrow> nat \<Rightarrow> best \<Rightarrow> error option \<times> best \<times> event list" where
  "profile_loop l [] i st = (None, st, [])"
| "profile_loop l (p # ps) i st =
     (case profile_body l i p st of
        (Some e, st', evs) \<Rightarrow> (Some e, st', evs)
      | (None, st', evs) \<Rightarrow>
          (case profile_loop l ps (Suc i) st' of
             (r, st'', evs') \<Rightarrow> (r, st'', evs @ evs')))"

subsection \<open>The run of the best instance\<close>

text \<open>The block under \<^verbatim>\<open>if(found)\<close>. Indexing \<^verbatim>\<open>op_ptrs\<close> outside the vector is written
  out as a failure. The value \<^verbatim>\<open>Run\<close> returns is dropped.\<close>

definition run_best :: "locals \<Rightarrow> device_op list \<Rightarrow> best \<Rightarrow> outcome \<times> event list" where
  "run_best l op_ptrs st =
     (if found st
      then (let evs0 = [Print_BestPerf (best_ave_time st) (best_gb_per_sec st) (best_op_name st)]
            in if best_op_id st < 0 \<or> length op_ptrs \<le> nat (best_op_id st)
               then (Aborted IndexOutOfRange, evs0)
               else (let i = nat (best_op_id st);
                         p = op_ptrs ! i;
                         evs1 = evs0 @ [Print_RunBest (GetTypeString p)];
                         argument_ptr = make_argument_production l
                     in if IsSupportedArgument p Production argument_ptr
                        then (case Run p argument_ptr untimed of
                                Inl e \<Rightarrow>
                                  (Aborted e,
                                   evs1 @ [Call_IsSupportedArgument i Production argument_ptr True,
                                           Call_Run i argument_ptr untimed])
                              | Inr _ \<Rightarrow>
                                  (Returned 0,
                                   evs1 @ [Call_IsSupportedArgument i Production argument_ptr True,
                                           Call_Run i argument_ptr untimed,
                                           Print_Done]))
                        else (Returned 0,
                              evs1 @ [Call_IsSupportedArgument i Production argument_ptr False,
                                      Print_Done])))
      else (Returned 0, []))"

subsection \<open>The whole program\<close>

definition select_and_run :: "locals \<Rightarrow> device_op list \<Rightarrow> outcome \<times> event list" where
  "select_and_run l op_ptrs =
     (case profile_loop l op_ptrs 0 best_init of
        (Some e, st, evs) \<Rightarrow> (Aborted e, [Print_Found (length op_ptrs), Print_RunAll] @ evs)
      | (None, st, evs) \<Rightarrow>
          (case run_best l op_ptrs st of
             (r, evs') \<Rightarrow> (r, [Print_Found (length op_ptrs), Print_RunAll] @ evs @ evs')))"

definition main_prog :: "buffers \<Rightarrow> device_op list \<Rightarrow> outcome \<times> event list" where
  "main_prog b op_ptrs =
     (case align_strides Rank main_xyLengths main_scaleBiasMeanVarLengths
             main_scaleBiasMeanVarStrides main_invariantDims of
        Inl e \<Rightarrow> (Aborted e, [])
      | Inr aligned \<Rightarrow> select_and_run (main_locals b aligned) op_ptrs)"

subsection \<open>Vocabulary of the statements\<close>

text \<open>What an instance answers in the profiling loop: whether it supports the argument
  built there, and what its timed run returns.\<close>

definition supports :: "locals \<Rightarrow> device_op \<Rightarrow> bool" where
  "supports l p = IsSupportedArgument p Profiling (make_argument_profiling l)"

definition timed_run :: "locals \<Rightarrow> device_op \<Rightarrow> error + real" where
  "timed_run l p = Run p (make_argument_profiling l) timed"

text \<open>The five assignments under \<^verbatim>\<open>if(ave_time < best_ave_time)\<close>.\<close>

definition take_best :: "locals \<Rightarrow> nat \<Rightarrow> device_op \<Rightarrow> real \<Rightarrow> best \<Rightarrow> best" where
  "take_best l i p t st =
     st\<lparr> found := True, best_op_id := int i, best_op_name := GetTypeString p,
         best_ave_time := t, best_gb_per_sec := gb_per_sec_of (num_bytes l) t \<rparr>"

text \<open>The two ways the loop over \<open>ps\<close> can leave the variables: no supported instance was
  faster than the running minimum, or the instance at position \<open>b\<close> was, with time \<open>tb\<close>,
  no supported instance being faster and none before it as fast.\<close>

definition kept :: "locals \<Rightarrow> device_op list \<Rightarrow> best \<Rightarrow> best \<Rightarrow> bool" where
  "kept l ps st st' \<longleftrightarrow>
     st' = st \<and>
     (\<forall>k < length ps. \<forall>t. supports l (ps ! k) \<longrightarrow> timed_run l (ps ! k) = Inr t
        \<longrightarrow> best_ave_time st \<le> t)"

definition won :: "locals \<Rightarrow> device_op list \<Rightarrow> nat \<Rightarrow> best \<Rightarrow> best \<Rightarrow> nat \<Rightarrow> real \<Rightarrow> bool" where
  "won l ps i st st' b tb \<longleftrightarrow>
     b < length ps \<and> supports l (ps ! b) \<and> timed_run l (ps ! b) = Inr tb \<and>
     tb < best_ave_time st \<and>
     st' = take_best l (i + b) (ps ! b) tb st \<and>
     (\<forall>k < length ps. \<forall>t. supports l (ps ! k) \<longrightarrow> timed_run l (ps ! k) = Inr t \<longrightarrow> tb \<le> t) \<and>
     (\<forall>k < b. \<forall>t. supports l (ps ! k) \<longrightarrow> timed_run l (ps ! k) = Inr t \<longrightarrow> tb < t)"

text \<open>Every \<^verbatim>\<open>Run\<close> in an event list comes right after a successful
  \<^verbatim>\<open>IsSupportedArgument\<close> of the same instance on the same argument.\<close>

definition guarded :: "event list \<Rightarrow> bool" where
  "guarded evs \<longleftrightarrow>
     (\<forall>pre j a c post. evs = pre @ Call_Run j a c # post \<longrightarrow>
        (\<exists>pre' ph. pre = pre' @ [Call_IsSupportedArgument j ph a True]))"

text \<open>The events the profiling loop can produce.\<close>

definition profiling_event :: "locals \<Rightarrow> event \<Rightarrow> bool" where
  "profiling_event l e \<longleftrightarrow>
     (\<exists>j r. e = Call_IsSupportedArgument j Profiling (make_argument_profiling l) r) \<or>
     (\<exists>j. e = Call_Run j (make_argument_profiling l) timed) \<or>
     (\<exists>t n. e = Print_Perf t (gb_per_sec_of (num_bytes l) t) n) \<or>
     (\<exists>n. e = Print_NotSupported n)"

text \<open>Two instances that cannot be told apart by the profiling loop.\<close>

definition same_verdict :: "locals \<Rightarrow> device_op \<Rightarrow> device_op \<Rightarrow> bool" where
  "same_verdict l p q \<longleftrightarrow>
     GetTypeString p = GetTypeString q \<and> supports l p = supports l q \<and>
     timed_run l p = timed_run l q"

subsection \<open>Concrete inputs\<close>

text \<open>Buffers at some addresses, and an instance that gives fixed answers: its name, its
  answer to the support check in each phase, and the result of every run.\<close>

definition example_buffers :: buffers where
  "example_buffers = \<lparr> buf_x = 4096, buf_y = 8192, buf_scale = 12288, buf_bias = 16384,
                       buf_mean = 20480, buf_variance = 24576 \<rparr>"

definition example_locals :: locals where
  "example_locals = main_locals example_buffers [0, 0, 0, 1]"

definition stub :: "string \<Rightarrow> bool \<Rightarrow> bool \<Rightarrow> error + real \<Rightarrow> device_op" where
  "stub name in_profiling in_production result =
     \<lparr> GetTypeString = name,
       IsSupportedArgument = (\<lambda>ph a. case ph of Profiling \<Rightarrow> in_profiling
                                               | Production \<Rightarrow> in_production),
       Run = (\<lambda>a c. result) \<rparr>"

text \<open>Lists of instances: three supported ones with the times 5.0, 3.2 and 3.2; one
  whose time is the largest finite \<^verbatim>\<open>float\<close>; three that decline the argument; one that
  accepts the argument in the profiling loop and declines it before the production run;
  one whose run fails, followed by one that works; a single working one; and the first
  list again with other answers in the production phase.\<close>

definition scenario_tie :: "device_op list" where
  "scenario_tie = [stub ''instance_0'' True True (Inr 5),
                   stub ''instance_1'' True True (Inr 3.2),
                   stub ''instance_2'' True True (Inr 3.2)]"

definition scenario_sentinel :: "device_op list" where
  "scenario_sentinel = [stub ''instance_0'' True True (Inr FLT_MAX)]"

definition scenario_none :: "device_op list" where
  "scenario_none = [stub ''instance_0'' False False (Inr 5),
                    stub ''instance_1'' False False (Inr 3.2),
                    stub ''instance_2'' False False (Inr 3.2)]"

definition scenario_mismatch :: "device_op list" where
  "scenario_mismatch = [stub ''X'' True False (Inr 1)]"

definition scenario_launch_failure :: "device_op list" where
  "scenario_launch_failure = [stub ''A'' True True (Inl LaunchFailure),
                              stub ''B'' True True (Inr 1)]"

definition scenario_single :: "device_op list" where
  "scenario_single = [stub ''X'' True True (Inr 1)]"

definition scenario_tie_variant :: "device_op list" where
  "scenario_tie_variant = [stub ''instance_0'' True False (Inr 5),
                           stub ''instance_1'' True False (Inr 3.2),
                           stub ''instance_2'' True False (Inr 3.2)]"

subsection \<open>The formula of the throughput\<close>

text \<open>The number of bytes moved and the throughput as the specification words them, and
  the throughput as the program rounds it.\<close>

definition spec_bytesMoved :: "locals \<Rightarrow> nat" where
  "spec_bytesMoved l =
     nat (numXYElement l) * (sizeof_XDataType + sizeof_YDataType) +
     nat (numScaleBiasMeanVarElement l) *
       (sizeof_ScaleDataType + sizeof_BiasDataType + 2 * sizeof_MeanVarDataType)"

definition spec_throughput :: "nat \<Rightarrow> real \<Rightarrow> real" where
  "spec_throughput bytes elapsed = real bytes / (10 ^ 6 * elapsed)"

definition rounded_throughput :: "nat \<Rightarrow> real \<Rightarrow> fp" where
  "rounded_throughput bytes elapsed =
     float_of_double (div_double (div_double (to_double (real bytes)) 1000000) elapsed)"

section \<open>Properties\<close>

subsection \<open>Rounding\<close>

lemma ilog2_bounds:
  assumes "0 < x"
  shows "power_int 2 (ilog2 x) \<le> x" and "x < power_int 2 (ilog2 x + 1)"
proof -
  have "power_int 2 (ilog2 x) \<le> x \<and> x < power_int 2 (ilog2 x + 1)"
  proof (cases "1 \<le> x")
    case True
    define n where "n = \<lfloor>x\<rfloor>"
    have n: "0 < n" using True by (simp add: n_def)
    define b where "b = bitlen n"
    have b: "1 \<le> b" using n by (simp add: b_def bitlen_alt_def)
    from bitlen_bounds [OF n] have lo: "2 ^ nat (b - 1) \<le> n" and hi: "n < 2 ^ nat b"
      by (simp_all add: b_def)
    have i: "ilog2 x = b - 1" using True by (simp add: ilog2_def n_def b_def)
    have "real_of_int (2 ^ nat (b - 1)) \<le> real_of_int n" using lo by linarith
    also have "\<dots> \<le> x" by (simp add: n_def)
    finally have 1: "power_int 2 (b - 1) \<le> x" using b by (simp add: power_int_def)
    have "n + 1 \<le> 2 ^ nat b" using hi by simp
    then have "real_of_int (n + 1) \<le> real_of_int (2 ^ nat b)" by linarith
    moreover have "x < real_of_int (n + 1)" by (simp add: n_def)
    ultimately have "x < 2 ^ nat b" by simp
    then have 2: "x < power_int 2 (b - 1 + 1)" using b by (simp add: power_int_def)
    show ?thesis using 1 2 i by simp
  next
    case False
    then have x1: "x < 1" by simp
    define c where "c = \<lceil>1 / x\<rceil>"
    define m where "m = c - 1"
    have "1 < 1 / x" using assms x1 by simp
    then have "1 < c" unfolding c_def by (simp add: less_ceiling_iff)
    then have m: "0 < m" by (simp add: m_def)
    define k where "k = bitlen m"
    have k: "1 \<le> k" using m by (simp add: k_def bitlen_alt_def)
    from bitlen_bounds [OF m] have lo: "2 ^ nat (k - 1) \<le> m" and hi: "m < 2 ^ nat k"
      by (simp_all add: k_def)
    have i: "ilog2 x = - k" using False by (simp add: ilog2_def c_def m_def k_def)
    have mlt: "real_of_int m < 1 / x" unfolding m_def c_def by linarith
    have cge: "1 / x \<le> real_of_int (m + 1)" unfolding m_def c_def by simp
    have "m + 1 \<le> 2 ^ nat k" using hi by simp
    then have "real_of_int (m + 1) \<le> real_of_int (2 ^ nat k)" by linarith
    with cge have "1 / x \<le> 2 ^ nat k" by simp
    then have "1 \<le> 2 ^ nat k * x" using assms by (simp add: field_simps)
    then have "1 / 2 ^ nat k \<le> x" by (simp add: field_simps)
    then have 1: "power_int 2 (- k) \<le> x" using k
      by (simp add: power_int_def field_simps)
    have "(2::real) ^ nat (k - 1) \<le> real_of_int m"
      using lo of_int_le_iff [where ?'a = real, of "2 ^ nat (k - 1)" m] by simp
    with mlt have "2 ^ nat (k - 1) < 1 / x" by linarith
    then have "x * 2 ^ nat (k - 1) < 1" using assms by (simp add: field_simps)
    then have "x < 1 / 2 ^ nat (k - 1)" by (simp add: field_simps)
    moreover have "power_int (2::real) (- k + 1) = 1 / 2 ^ nat (k - 1)"
      using k by (auto simp: power_int_def field_simps)
    ultimately have 2: "x < power_int 2 (- k + 1)" by simp
    show ?thesis using 1 2 i by simp
  qed
  then show "power_int 2 (ilog2 x) \<le> x" and "x < power_int 2 (ilog2 x + 1)" by simp_all
qed

lemma ilog2_unique:
  assumes "power_int 2 e \<le> x" and "x < power_int 2 (e + 1)"
  shows "ilog2 x = e"
proof -
  have pos: "0 < x" using assms(1) zero_less_power_int [of "2::real" e] by linarith
  have "\<not> ilog2 x + 1 \<le> e"
  proof
    assume "ilog2 x + 1 \<le> e"
    then have "power_int (2::real) (ilog2 x + 1) \<le> power_int 2 e"
      by (intro power_int_increasing) simp_all
    with assms(1) ilog2_bounds(2) [OF pos] show False by linarith
  qed
  moreover have "\<not> e + 1 \<le> ilog2 x"
  proof
    assume "e + 1 \<le> ilog2 x"
    then have "power_int (2::real) (e + 1) \<le> power_int 2 (ilog2 x)"
      by (intro power_int_increasing) simp_all
    with assms(2) ilog2_bounds(1) [OF pos] show False by linarith
  qed
  ultimately show ?thesis by linarith
qed

lemma round_nearest_even_error:
  "\<bar>real_of_int (round_nearest_even m) - m\<bar> \<le> 1 / 2"
  unfolding round_nearest_even_def Let_def by (auto; linarith)



lemma div_double_zero: "div_double d 0 = NonFinite"
  by (cases d) simp_all

lemma ilog2_ge:
  assumes "power_int 2 k \<le> x"
  shows "k \<le> ilog2 x"
proof (rule ccontr)
  assume "\<not> k \<le> ilog2 x"
  then have "ilog2 x + 1 \<le> k" by simp
  then have "power_int (2::real) (ilog2 x + 1) \<le> power_int 2 k"
    by (intro power_int_increasing) simp_all
  moreover have "0 < x" using assms zero_less_power_int [of "2::real" k] by linarith
  ultimately show False using assms ilog2_bounds(2) [of x] by linarith
qed

text \<open>Rounding in the normal range: the result is finite and the relative error is at
  most \<open>2\<^sup>-\<^sup>p\<close>.\<close>

lemma ieee_round_close:
  assumes p: "1 \<le> p"
    and lo: "power_int 2 emin \<le> \<bar>x\<bar>"
    and hi: "\<bar>x\<bar> \<le> power_int 2 emax"
  shows "\<exists>y. ieee_round p emin emax x = Finite y \<and> \<bar>y - x\<bar> \<le> \<bar>x\<bar> / 2 ^ p"
proof -
  define a where "a = \<bar>x\<bar>"
  have a: "0 < a" using lo zero_less_power_int [of "2::real" emin] unfolding a_def by linarith
  then have x0: "x \<noteq> 0" by (auto simp: a_def)
  define e where "e = ilog2 a"
  have ee: "emin \<le> e" using lo by (simp add: e_def a_def ilog2_ge)
  define q :: real where "q = power_int 2 (e - int p + 1)"
  have q: "0 < q" by (simp add: q_def)
  define r where "r = round_nearest_even (a / q)"
  define y where "y = real_of_int r * q"
  have "\<bar>real_of_int r - a / q\<bar> \<le> 1 / 2" unfolding r_def by (rule round_nearest_even_error)
  then have "\<bar>real_of_int r - a / q\<bar> * q \<le> 1 / 2 * q" using q by (simp only: mult_le_cancel_right_pos)
  moreover have "\<bar>real_of_int r - a / q\<bar> * q = \<bar>y - a\<bar>"
  proof -
    have "\<bar>real_of_int r - a / q\<bar> * q = \<bar>(real_of_int r - a / q) * q\<bar>"
      using q by (simp add: abs_mult)
    also have "(real_of_int r - a / q) * q = y - a" using q by (simp add: y_def field_simps)
    finally show ?thesis .
  qed
  ultimately have err: "\<bar>y - a\<bar> \<le> q / 2" by simp
  have "q = power_int 2 (e - int p) * 2"
    unfolding q_def by (simp add: power_int_add_1)
  then have q2: "q / 2 = power_int 2 (e - int p)" by simp
  have "power_int (2::real) (e - int p) = power_int 2 e / 2 ^ p"
    by (simp add: power_int_diff)
  moreover have "power_int 2 e \<le> a" unfolding e_def using a by (rule ilog2_bounds(1))
  ultimately have "q / 2 \<le> a / 2 ^ p" using q2 by (simp add: divide_right_mono)
  with err have rel: "\<bar>y - a\<bar> \<le> a / 2 ^ p" by linarith
  have "(2::real) ^ 1 \<le> 2 ^ p" using p by (intro power_increasing) simp_all
  then have "a / 2 ^ p \<le> a / 2" using a by (intro divide_left_mono) simp_all
  with rel have "y \<le> a + a / 2" by linarith
  also have "\<dots> < 2 * a" using a by simp
  also have "\<dots> \<le> 2 * power_int 2 emax" using hi by (simp add: a_def)
  also have "\<dots> = power_int 2 (emax + 1)" by (simp add: power_int_add_1)
  finally have no: "\<not> power_int 2 (emax + 1) \<le> y" by simp
  have r: "ieee_round p emin emax x = Finite (sgn x * y)"
    using x0 ee no
    by (simp add: ieee_round_def Let_def a_def [symmetric] e_def [symmetric] q_def [symmetric]
        r_def [symmetric] y_def [symmetric] max_absorb1)
  have "sgn x * y - x = sgn x * (y - a)"
    by (simp add: a_def algebra_simps flip: abs_sgn) (simp add: abs_sgn mult.commute)
  then have "\<bar>sgn x * y - x\<bar> = \<bar>y - a\<bar>" using x0 by (simp add: abs_mult)
  with rel r show ?thesis by (simp add: a_def)
qed



lemma round_nearest_even_eval:
  assumes "\<bar>m - real_of_int r\<bar> < 1 / 2"
  shows "round_nearest_even m = r"
proof -
  have "\<lfloor>m\<rfloor> = r \<or> \<lfloor>m\<rfloor> = r - 1" using assms by linarith
  then show ?thesis
  proof
    assume f: "\<lfloor>m\<rfloor> = r"
    then have "m - real_of_int \<lfloor>m\<rfloor> < 1 / 2" using assms by linarith
    then show ?thesis using f by (simp add: round_nearest_even_def)
  next
    assume f: "\<lfloor>m\<rfloor> = r - 1"
    then have "1 / 2 < m - real_of_int \<lfloor>m\<rfloor>" using assms by linarith
    then show ?thesis using f by (simp add: round_nearest_even_def Let_def)
  qed
qed

lemma ieee_round_eval:
  assumes "power_int 2 e \<le> \<bar>x\<bar>" and "\<bar>x\<bar> < power_int 2 (e + 1)" and "emin \<le> e"
    and "\<bar>\<bar>x\<bar> / power_int 2 (e - int p + 1) - real_of_int r\<bar> < 1 / 2"
    and "real_of_int r * power_int 2 (e - int p + 1) < power_int 2 (emax + 1)"
  shows "ieee_round p emin emax x = Finite (sgn x * (real_of_int r * power_int 2 (e - int p + 1)))"
proof -
  have e: "ilog2 \<bar>x\<bar> = e" using assms(1,2) by (rule ilog2_unique)
  have "0 < \<bar>x\<bar>" using assms(1) zero_less_power_int [of "2::real" e] by linarith
  then have x0: "x \<noteq> 0" by simp
  have r: "round_nearest_even (\<bar>x\<bar> / power_int 2 (e - int p + 1)) = r"
    using assms(4) by (rule round_nearest_even_eval)
  show ?thesis using x0 assms(3,5) by (simp add: ieee_round_def Let_def e r max_absorb1)
qed

text \<open>The throughput of the program's own problem (33558528 bytes) at an elapsed time of
  1 ms, step by step.\<close>

lemma to_double_bytes: "to_double 33558528 = Finite 33558528"
  unfolding to_double_def
  by (subst ieee_round_eval [where e = 25 and r = 4504149383184384]) simp_all

lemma to_double_megabytes:
  "to_double (33558528 / 1000000) = Finite (4722942943621949 / 2 ^ 47)"
  unfolding to_double_def
  by (subst ieee_round_eval [where e = 5 and r = 4722942943621949]) simp_all

lemma to_double_per_ms:
  "to_double (4722942943621949 / 2 ^ 47 / 1) = Finite (4722942943621949 / 2 ^ 47)"
  unfolding to_double_def
  by (subst ieee_round_eval [where e = 5 and r = 4722942943621949]) simp_all

lemma to_float_per_ms: "to_float (4722942943621949 / 2 ^ 47) = Finite (8797167 / 262144)"
  unfolding to_float_def
  by (subst ieee_round_eval [where e = 5 and r = 8797167]) simp_all

lemma div_double_nonzero: "b \<noteq> 0 \<Longrightarrow> div_double (Finite a) b = to_double (a / b)"
  by simp

lemma rounded_throughput_example:
  "rounded_throughput 33558528 1 = Finite (8797167 / 262144)"
proof -
  have n: "(1000000::real) \<noteq> 0" "(1::real) \<noteq> 0" by simp_all
  have b: "real 33558528 = 33558528" by simp
  show ?thesis
    unfolding rounded_throughput_def
    by (simp only: b to_double_bytes div_double_nonzero [OF n(1)] to_double_megabytes
        div_double_nonzero [OF n(2)] to_double_per_ms float_of_double.simps to_float_per_ms)
qed

lemma close_trans:
  fixes x y z d1 d2 :: real
  assumes "\<bar>y - x\<bar> \<le> \<bar>x\<bar> * d1" and "\<bar>z - y\<bar> \<le> \<bar>y\<bar> * d2" and "0 \<le> d2"
  shows "\<bar>z - x\<bar> \<le> \<bar>x\<bar> * (d1 + d2 + d1 * d2)"
proof -
  have "\<bar>y\<bar> \<le> \<bar>x\<bar> + \<bar>x\<bar> * d1" using assms(1) by linarith
  then have "\<bar>y\<bar> * d2 \<le> (\<bar>x\<bar> + \<bar>x\<bar> * d1) * d2" using assms(3) by (rule mult_right_mono)
  with assms(1,2) have "\<bar>z - x\<bar> \<le> \<bar>x\<bar> * d1 + (\<bar>x\<bar> + \<bar>x\<bar> * d1) * d2" by linarith
  then show ?thesis by (simp add: algebra_simps)
qed

lemma close_scale:
  fixes x y c d :: real
  assumes "\<bar>y - x\<bar> \<le> \<bar>x\<bar> * d"
  shows "\<bar>y / c - x / c\<bar> \<le> \<bar>x / c\<bar> * d"
proof -
  have "\<bar>y / c - x / c\<bar> = \<bar>y - x\<bar> / \<bar>c\<bar>" by (simp add: diff_divide_distrib [symmetric])
  also have "\<dots> \<le> \<bar>x\<bar> * d / \<bar>c\<bar>" using assms by (simp add: divide_right_mono)
  finally show ?thesis by simp
qed

lemma close_range:
  fixes x y d :: real
  assumes "\<bar>y - x\<bar> \<le> \<bar>x\<bar> * d" and "d \<le> 1 / 2"
  shows "\<bar>x\<bar> / 2 \<le> \<bar>y\<bar>" and "\<bar>y\<bar> \<le> 2 * \<bar>x\<bar>"
proof -
  have "\<bar>x\<bar> * d \<le> \<bar>x\<bar> * (1 / 2)" using assms(2) by (intro mult_left_mono) simp_all
  with assms(1) have "\<bar>y - x\<bar> \<le> \<bar>x\<bar> / 2" by simp
  then show "\<bar>x\<bar> / 2 \<le> \<bar>y\<bar>" and "\<bar>y\<bar> \<le> 2 * \<bar>x\<bar>" by linarith+
qed

lemma to_double_close:
  assumes "power_int 2 (- 1022) \<le> \<bar>x\<bar>" and "\<bar>x\<bar> \<le> power_int 2 1023"
  shows "\<exists>y. to_double x = Finite y \<and> \<bar>y - x\<bar> \<le> \<bar>x\<bar> * (1 / 2 ^ 53)"
  using ieee_round_close [of 53 "- 1022" x 1023] assms by (simp add: to_double_def)

lemma to_float_close:
  assumes "power_int 2 (- 126) \<le> \<bar>x\<bar>" and "\<bar>x\<bar> \<le> power_int 2 127"
  shows "\<exists>y. to_float x = Finite y \<and> \<bar>y - x\<bar> \<le> \<bar>x\<bar> * (1 / 2 ^ 24)"
  using ieee_round_close [of 24 "- 126" x 127] assms by (simp add: to_float_def)

lemma rounded_throughput_close:
  fixes B :: nat and t :: real
  assumes B: "1 \<le> B" "B < 2 ^ 64"
    and t: "t \<noteq> 0"
    and lo: "1 / 2 ^ 120 \<le> real B / (10 ^ 6 * \<bar>t\<bar>)"
    and hi: "real B / (10 ^ 6 * \<bar>t\<bar>) \<le> 2 ^ 120"
  shows "\<exists>g. rounded_throughput B t = Finite g \<and>
           \<bar>g - real B / (10 ^ 6 * t)\<bar> \<le> \<bar>real B / (10 ^ 6 * t)\<bar> / 2 ^ 23"
proof -
  define u :: real where "u = 1 / 2 ^ 53"
  define v :: real where "v = 1 / 2 ^ 24"
  define X where "X = real B / (10 ^ 6 * \<bar>t\<bar>)"
  have X: "1 / 2 ^ 120 \<le> X" "X \<le> 2 ^ 120" using lo hi by (simp_all add: X_def)
  have tpos: "0 < \<bar>t\<bar>" using t by simp
  \<comment> \<open>conversion of the byte count\<close>
  have r0: "1 \<le> real B" "real B \<le> 2 ^ 64" using B by simp_all
  have "power_int 2 (- 1022) \<le> \<bar>real B\<bar>"
  proof -
    have "power_int (2::real) (- 1022) \<le> power_int 2 0" by (intro power_int_increasing) simp_all
    then show ?thesis using r0(1) by simp
  qed
  moreover have "\<bar>real B\<bar> \<le> power_int 2 1023"
  proof -
    have "(2::real) ^ 64 \<le> 2 ^ 1023" by (intro power_increasing) simp_all
    then show ?thesis using r0(2) by simp
  qed
  ultimately obtain b0 where b0: "to_double (real B) = Finite b0"
    and c0: "\<bar>b0 - real B\<bar> \<le> \<bar>real B\<bar> * u" unfolding u_def using to_double_close by blast
  have u_half: "u \<le> 1 / 2" by (simp add: u_def)
  note g0 = close_range [OF c0 u_half]
  \<comment> \<open>division by \<open>10\<^sup>6\<close>\<close>
  define x1 where "x1 = b0 / 1000000"
  have x1lo: "1 / 2000000 \<le> \<bar>x1\<bar>" using g0(1) r0(1) by (simp add: x1_def)
  have x1hi: "\<bar>x1\<bar> \<le> 2 ^ 65 / 1000000" using g0(2) r0(2) by (simp add: x1_def)
  have "power_int 2 (- 1022) \<le> \<bar>x1\<bar>"
  proof -
    have "power_int (2::real) (- 1022) \<le> power_int 2 (- 21)"
      by (intro power_int_increasing) simp_all
    also have "\<dots> \<le> 1 / 2000000" by simp
    finally show ?thesis using x1lo by linarith
  qed
  moreover have "\<bar>x1\<bar> \<le> power_int 2 1023"
  proof -
    have "(2::real) ^ 65 / 1000000 \<le> 2 ^ 65" by simp
    also have "\<dots> \<le> 2 ^ 1023" by (intro power_increasing) simp_all
    finally show ?thesis using x1hi by simp
  qed
  ultimately obtain b1 where b1: "to_double x1 = Finite b1"
    and c1': "\<bar>b1 - x1\<bar> \<le> \<bar>x1\<bar> * u" unfolding u_def using to_double_close by blast
  have c1s: "\<bar>x1 - real B / 1000000\<bar> \<le> \<bar>real B / 1000000\<bar> * u"
    unfolding x1_def using c0 by (rule close_scale)
  have u0: "0 \<le> u" by (simp add: u_def)
  note c1 = close_trans [OF c1s c1' u0]
  \<comment> \<open>division by the elapsed time\<close>
  define x2 where "x2 = b1 / t"
  have c2s: "\<bar>x2 - real B / 1000000 / t\<bar> \<le> \<bar>real B / 1000000 / t\<bar> * (u + u + u * u)"
    unfolding x2_def using c1 by (rule close_scale)
  have Xabs: "\<bar>real B / 1000000 / t\<bar> = X" by (simp add: X_def abs_mult)
  have d2_half: "u + u + u * u \<le> 1 / 2" by (simp add: u_def)
  note g2 = close_range [OF c2s d2_half]
  have x2lo: "1 / 2 ^ 121 \<le> \<bar>x2\<bar>" using g2(1) X(1) unfolding Xabs by simp
  have x2hi: "\<bar>x2\<bar> \<le> 2 ^ 121" using g2(2) X(2) unfolding Xabs by simp
  have "power_int 2 (- 1022) \<le> \<bar>x2\<bar>"
  proof -
    have "power_int (2::real) (- 1022) \<le> power_int 2 (- 121)"
      by (intro power_int_increasing) simp_all
    also have "\<dots> = 1 / 2 ^ 121" by (simp add: power_int_minus field_simps)
    finally show ?thesis using x2lo by linarith
  qed
  moreover have "\<bar>x2\<bar> \<le> power_int 2 1023"
  proof -
    have "(2::real) ^ 121 \<le> 2 ^ 1023" by (intro power_increasing) simp_all
    then show ?thesis using x2hi by simp
  qed
  ultimately obtain b2 where b2: "to_double x2 = Finite b2"
    and c2': "\<bar>b2 - x2\<bar> \<le> \<bar>x2\<bar> * u" unfolding u_def using to_double_close by blast
  note c2 = close_trans [OF c2s c2' u0]
  \<comment> \<open>narrowing to \<^verbatim>\<open>float\<close>\<close>
  note h2 = close_range [OF c2' u_half]
  have b2lo: "1 / 2 ^ 122 \<le> \<bar>b2\<bar>" using h2(1) x2lo by simp
  have b2hi: "\<bar>b2\<bar> \<le> 2 ^ 122" using h2(2) x2hi by simp
  have "power_int 2 (- 126) \<le> \<bar>b2\<bar>"
  proof -
    have "power_int (2::real) (- 126) \<le> power_int 2 (- 122)"
      by (intro power_int_increasing) simp_all
    also have "\<dots> = 1 / 2 ^ 122" by (simp add: power_int_minus field_simps)
    finally show ?thesis using b2lo by linarith
  qed
  moreover have "\<bar>b2\<bar> \<le> power_int 2 127"
  proof -
    have "(2::real) ^ 122 \<le> 2 ^ 127" by (intro power_increasing) simp_all
    then show ?thesis using b2hi by simp
  qed
  ultimately obtain g where g: "to_float b2 = Finite g"
    and c3': "\<bar>g - b2\<bar> \<le> \<bar>b2\<bar> * v" unfolding v_def using to_float_close by blast
  have v0: "0 \<le> v" by (simp add: v_def)
  note c3 = close_trans [OF c2 c3' v0]
  have d: "u + u + u * u + u + (u + u + u * u) * u + v + (u + u + u * u + u + (u + u + u * u) * u) * v
             \<le> 1 / 2 ^ 23"
    by (simp add: u_def v_def)
  have "\<bar>real B / 1000000 / t\<bar> *
          (u + u + u * u + u + (u + u + u * u) * u + v + (u + u + u * u + u + (u + u + u * u) * u) * v)
        \<le> \<bar>real B / 1000000 / t\<bar> * (1 / 2 ^ 23)"
    using d by (intro mult_left_mono) simp_all
  with c3 have fin: "\<bar>g - real B / 1000000 / t\<bar> \<le> \<bar>real B / 1000000 / t\<bar> / 2 ^ 23" by simp
  have eq: "real B / 1000000 / t = real B / (10 ^ 6 * t)" by simp
  have "rounded_throughput B t = Finite g"
    using t by (simp add: rounded_throughput_def b0 x1_def [symmetric] b1 x2_def [symmetric] b2 g)
  with fin show ?thesis unfolding eq by blast
qed

subsection \<open>The set-up\<close>

lemma align_loop_ok:
  assumes "distinct dims"
    and "\<forall>d \<in> set dims. 0 \<le> d \<and> nat d < length aligned \<and> nat d < length xyL"
    and "i + length dims \<le> length sS"
    and "i + length dims \<le> length sL"
    and "\<forall>k < length dims. xyL ! nat (dims ! k) = sL ! (i + k)"
  shows "\<exists>a. align_loop xyL sL sS dims i aligned = Inr a \<and> length a = length aligned \<and>
           (\<forall>k < length dims. a ! nat (dims ! k) = sS ! (i + k)) \<and>
           (\<forall>j < length aligned. int j \<notin> set dims \<longrightarrow> a ! j = aligned ! j)"
  using assms
proof (induction dims arbitrary: i aligned)
  case Nil
  then show ?case by simp
next
  case (Cons d dims)
  let ?al = "aligned[nat d := sS ! i]"
  have d: "0 \<le> d" "nat d < length aligned" "nat d < length xyL" using Cons.prems(2) by auto
  have i: "i < length sS" "i < length sL" using Cons.prems(3,4) by auto
  have as: "xyL ! nat d = sL ! i" using Cons.prems(5) by (metis add.right_neutral length_greater_0_conv list.discI nth_Cons_0)
  have step: "align_loop xyL sL sS (d # dims) i aligned = align_loop xyL sL sS dims (Suc i) ?al"
    using d i as by simp
  have "\<exists>a. align_loop xyL sL sS dims (Suc i) ?al = Inr a \<and> length a = length ?al \<and>
           (\<forall>k < length dims. a ! nat (dims ! k) = sS ! (Suc i + k)) \<and>
           (\<forall>j < length ?al. int j \<notin> set dims \<longrightarrow> a ! j = ?al ! j)"
  proof (rule Cons.IH)
    show "distinct dims" using Cons.prems(1) by simp
    show "\<forall>d\<in>set dims. 0 \<le> d \<and> nat d < length ?al \<and> nat d < length xyL"
      using Cons.prems(2) by simp
    show "Suc i + length dims \<le> length sS" using Cons.prems(3) by simp
    show "Suc i + length dims \<le> length sL" using Cons.prems(4) by simp
    show "\<forall>k<length dims. xyL ! nat (dims ! k) = sL ! (Suc i + k)"
    proof (intro allI impI)
      fix k assume "k < length dims"
      then have "xyL ! nat ((d # dims) ! Suc k) = sL ! (i + Suc k)"
        using Cons.prems(5) by (metis Suc_less_eq length_Cons)
      then show "xyL ! nat (dims ! k) = sL ! (Suc i + k)" by simp
    qed
  qed
  then obtain a where a: "align_loop xyL sL sS dims (Suc i) ?al = Inr a" "length a = length aligned"
     "\<forall>k < length dims. a ! nat (dims ! k) = sS ! (Suc i + k)"
     "\<forall>j < length aligned. int j \<notin> set dims \<longrightarrow> a ! j = ?al ! j" by auto
  have dn: "d \<notin> set dims" using Cons.prems(1) by simp
  have "a ! nat d = sS ! i"
  proof -
    have "int (nat d) \<notin> set dims" using dn d by simp
    then have "a ! nat d = ?al ! nat d" using a(4) d by blast
    then show ?thesis using d by simp
  qed
  moreover have "\<forall>k < length (d # dims). a ! nat ((d # dims) ! k) = sS ! (i + k)"
  proof (intro allI impI)
    fix k assume k: "k < length (d # dims)"
    show "a ! nat ((d # dims) ! k) = sS ! (i + k)"
    proof (cases k)
      case 0
      then show ?thesis using \<open>a ! nat d = sS ! i\<close> by simp
    next
      case (Suc k')
      then show ?thesis using a(3) k by simp
    qed
  qed
  moreover have "\<forall>j < length aligned. int j \<notin> set (d # dims) \<longrightarrow> a ! j = aligned ! j"
  proof (intro allI impI)
    fix j assume j: "j < length aligned" "int j \<notin> set (d # dims)"
    then have "a ! j = ?al ! j" using a(4) by simp
    moreover have "j \<noteq> nat d" using j d by auto
    ultimately show "a ! j = aligned ! j" by simp
  qed
  ultimately show ?case using step a(1,2) by simp
qed


lemma main_aligned:
  "align_strides Rank main_xyLengths main_scaleBiasMeanVarLengths
     main_scaleBiasMeanVarStrides main_invariantDims = Inr [0, 0, 0, 1]"
  by (simp add: align_strides_def Rank_def main_xyLengths_def main_scaleBiasMeanVarLengths_def
      main_scaleBiasMeanVarStrides_def main_invariantDims_def numeral_eq_Suc)

lemma main_prog_select:
  "main_prog b ps = select_and_run (main_locals b [0, 0, 0, 1]) ps"
  by (simp add: main_prog_def main_aligned)

lemma main_numXYElement: "accumulate_mul main_xyLengths = 4194304"
  by (simp add: accumulate_mul_def main_xyLengths_def)

lemma main_numScaleBiasMeanVarElement: "accumulate_mul main_scaleBiasMeanVarLengths = 256"
  by (simp add: accumulate_mul_def main_scaleBiasMeanVarLengths_def)

text \<open>The lengths, strides and element counts of the program are 32-bit values.\<close>

lemma main_values_fit:
  "\<forall>v \<in> set (main_xyLengths @ main_xyStrides @ main_scaleBiasMeanVarLengths @
               main_scaleBiasMeanVarStrides @
               [accumulate_mul main_xyLengths, accumulate_mul main_scaleBiasMeanVarLengths]).
     0 < v \<and> v < 2 ^ 31"
  by (simp add: main_xyLengths_def main_xyStrides_def main_scaleBiasMeanVarLengths_def
      main_scaleBiasMeanVarStrides_def accumulate_mul_def)

text \<open>
  Claim C10. The aligned stride array that is bound for scale, bias, mean and variance
  holds, at every dimension listed in \<^verbatim>\<open>invariantDims\<close>, the entry of
  \<^verbatim>\<open>scaleBiasMeanVarStrides\<close> at the same position of the list, and 0 at every other
  dimension. The dimensions are distinct and within the rank, the stride and length
  arrays are long enough, and the assertion of the loop holds; the loop then ends
  normally.
\<close>

theorem aligned_strides_broadcast:
  assumes "distinct dims"
    and "\<forall>d \<in> set dims. 0 \<le> d \<and> nat d < rank \<and> nat d < length xyL"
    and "length dims \<le> length sS"
    and "length dims \<le> length sL"
    and "\<forall>k < length dims. xyL ! nat (dims ! k) = sL ! k"
  shows "\<exists>a. align_strides rank xyL sL sS dims = Inr a \<and> length a = rank \<and>
           (\<forall>k < length dims. a ! nat (dims ! k) = sS ! k) \<and>
           (\<forall>j < rank. int j \<notin> set dims \<longrightarrow> a ! j = 0)"
proof -
  have "\<exists>a. align_loop xyL sL sS dims 0 (replicate rank 0) = Inr a \<and>
          length a = length (replicate rank (0::int)) \<and>
          (\<forall>k < length dims. a ! nat (dims ! k) = sS ! (0 + k)) \<and>
          (\<forall>j < length (replicate rank (0::int)). int j \<notin> set dims
              \<longrightarrow> a ! j = replicate rank 0 ! j)"
    by (rule align_loop_ok) (use assms in simp_all)
  then show ?thesis by (simp add: align_strides_def)
qed

theorem aligned_strides_broadcast_witness:
  "distinct main_invariantDims \<and> main_invariantDims = [3] \<and> main_reduceDims = [0, 1, 2] \<and>
   Rank = 4 \<and> length main_xyLengths = 4 \<and>
   length main_invariantDims \<le> length main_scaleBiasMeanVarStrides \<and>
   length main_invariantDims \<le> length main_scaleBiasMeanVarLengths \<and>
   main_xyLengths ! 3 = main_scaleBiasMeanVarLengths ! 0 \<and>
   align_strides Rank main_xyLengths main_scaleBiasMeanVarLengths
     main_scaleBiasMeanVarStrides main_invariantDims = Inr [0, 0, 0, 1] \<and>
   [0, 0, 0, 1] ! nat (main_invariantDims ! 0) = main_scaleBiasMeanVarStrides ! 0 \<and>
   [0, 0, 0, 1 :: int] ! nat (main_reduceDims ! 0) = 0 \<and>
   [0, 0, 0, 1 :: int] ! nat (main_reduceDims ! 1) = 0 \<and>
   [0, 0, 0, 1 :: int] ! nat (main_reduceDims ! 2) = 0"
proof -
  have h1: "distinct main_invariantDims" by (simp add: main_invariantDims_def)
  have h2: "\<forall>d \<in> set main_invariantDims. 0 \<le> d \<and> nat d < Rank \<and> nat d < length main_xyLengths"
    by (simp add: main_invariantDims_def Rank_def main_xyLengths_def)
  have h3: "length main_invariantDims \<le> length main_scaleBiasMeanVarStrides"
    by (simp add: main_invariantDims_def main_scaleBiasMeanVarStrides_def)
  have h4: "length main_invariantDims \<le> length main_scaleBiasMeanVarLengths"
    by (simp add: main_invariantDims_def main_scaleBiasMeanVarLengths_def)
  have h5: "\<forall>k < length main_invariantDims.
      main_xyLengths ! nat (main_invariantDims ! k) = main_scaleBiasMeanVarLengths ! k"
    by (simp add: main_invariantDims_def main_xyLengths_def main_scaleBiasMeanVarLengths_def
        numeral_eq_Suc)
  from aligned_strides_broadcast [OF h1 h2 h3 h4 h5]
  obtain a where a: "align_strides Rank main_xyLengths main_scaleBiasMeanVarLengths
           main_scaleBiasMeanVarStrides main_invariantDims = Inr a"
    and k: "\<forall>k < length main_invariantDims.
              a ! nat (main_invariantDims ! k) = main_scaleBiasMeanVarStrides ! k"
    and z: "\<forall>j < Rank. int j \<notin> set main_invariantDims \<longrightarrow> a ! j = 0"
    by blast
  have v: "a = [0, 0, 0, 1]" using a by (simp add: main_aligned)
  have s: "a ! nat (main_invariantDims ! 0) = main_scaleBiasMeanVarStrides ! 0"
    using k by (simp add: main_invariantDims_def)
  have z0: "a ! nat (main_reduceDims ! 0) = 0" using z
    by (simp add: main_reduceDims_def main_invariantDims_def Rank_def)
  have z1: "a ! nat (main_reduceDims ! 1) = 0" using z
    by (simp add: main_reduceDims_def main_invariantDims_def Rank_def)
  have z2: "a ! nat (main_reduceDims ! 2) = 0" using z
    by (simp add: main_reduceDims_def main_invariantDims_def Rank_def)
  have c: "main_invariantDims = [3]" "main_reduceDims = [0, 1, 2]" "Rank = 4"
    "length main_xyLengths = 4" "main_xyLengths ! 3 = main_scaleBiasMeanVarLengths ! 0"
    by (simp_all add: main_invariantDims_def main_reduceDims_def Rank_def main_xyLengths_def
        main_scaleBiasMeanVarLengths_def)
  show ?thesis using h1 h3 h4 a s z0 z1 z2 c unfolding v by simp
qed

subsection \<open>The argument\<close>

text \<open>
  Claim C9. The argument rebuilt for the run of the best instance is made of the same
  lengths, input and output strides, buffers and epsilon as the argument of the
  profiling loop: as functions of the local variables the two constructions are equal.
\<close>

theorem argument_rebuilt_equal:
  "make_argument_production l = make_argument_profiling l"
  by (simp add: make_argument_production_def make_argument_profiling_def)

subsection \<open>One iteration and the loop\<close>

lemma profile_body_unsupported:
  "\<not> supports l p \<Longrightarrow>
   profile_body l i p st =
     (None, st, [Call_IsSupportedArgument i Profiling (make_argument_profiling l) False,
                 Print_NotSupported (GetTypeString p)])"
  by (simp add: profile_body_def supports_def Let_def)

lemma profile_body_failed:
  "supports l p \<Longrightarrow> timed_run l p = Inl e \<Longrightarrow>
   profile_body l i p st =
     (Some e, st, [Call_IsSupportedArgument i Profiling (make_argument_profiling l) True,
                   Call_Run i (make_argument_profiling l) timed])"
  by (simp add: profile_body_def supports_def timed_run_def Let_def)

lemma profile_body_better:
  "supports l p \<Longrightarrow> timed_run l p = Inr t \<Longrightarrow> t < best_ave_time st \<Longrightarrow>
   profile_body l i p st =
     (None, take_best l i p t st,
      [Call_IsSupportedArgument i Profiling (make_argument_profiling l) True,
       Call_Run i (make_argument_profiling l) timed,
       Print_Perf t (gb_per_sec_of (num_bytes l) t) (GetTypeString p)])"
  by (simp add: profile_body_def supports_def timed_run_def take_best_def Let_def)

lemma profile_body_not_better:
  "supports l p \<Longrightarrow> timed_run l p = Inr t \<Longrightarrow> \<not> t < best_ave_time st \<Longrightarrow>
   profile_body l i p st =
     (None, st,
      [Call_IsSupportedArgument i Profiling (make_argument_profiling l) True,
       Call_Run i (make_argument_profiling l) timed,
       Print_Perf t (gb_per_sec_of (num_bytes l) t) (GetTypeString p)])"
  by (simp add: profile_body_def supports_def timed_run_def Let_def)

lemma take_best_twice [simp]:
  "take_best l j q u (take_best l i p t st) = take_best l j q u st"
  by (simp add: take_best_def)

lemma take_best_time [simp]: "best_ave_time (take_best l i p t st) = t"
  by (simp add: take_best_def)

lemma kept_Nil: "kept l [] st st"
  by (simp add: kept_def)

lemma kept_skip:
  "\<not> supports l p \<Longrightarrow> kept l ps st st' \<Longrightarrow> kept l (p # ps) st st'"
  by (auto simp: kept_def less_Suc_eq_0_disj)

lemma won_skip:
  "\<not> supports l p \<Longrightarrow> won l ps (Suc i) st st' b tb \<Longrightarrow> won l (p # ps) i st st' (Suc b) tb"
  by (auto simp: won_def less_Suc_eq_0_disj)

lemma kept_slower:
  "timed_run l p = Inr t \<Longrightarrow> \<not> t < best_ave_time st \<Longrightarrow> kept l ps st st' \<Longrightarrow>
   kept l (p # ps) st st'"
  by (auto simp: kept_def less_Suc_eq_0_disj)

lemma won_slower:
  "timed_run l p = Inr t \<Longrightarrow> \<not> t < best_ave_time st \<Longrightarrow> won l ps (Suc i) st st' b tb \<Longrightarrow>
   won l (p # ps) i st st' (Suc b) tb"
  by (auto simp: won_def less_Suc_eq_0_disj)

lemma won_first:
  "supports l p \<Longrightarrow> timed_run l p = Inr t \<Longrightarrow> t < best_ave_time st \<Longrightarrow>
   kept l ps (take_best l i p t st) st' \<Longrightarrow> won l (p # ps) i st st' 0 t"
  by (auto simp: won_def kept_def less_Suc_eq_0_disj)

lemma won_later:
  "supports l p \<Longrightarrow> timed_run l p = Inr t \<Longrightarrow> t < best_ave_time st \<Longrightarrow>
   won l ps (Suc i) (take_best l i p t st) st' b tb \<Longrightarrow> won l (p # ps) i st st' (Suc b) tb"
  by (auto simp: won_def less_Suc_eq_0_disj)

lemma profile_loop_result:
  assumes "\<forall>p \<in> set ps. supports l p \<longrightarrow> (\<exists>t. timed_run l p = Inr t)"
  shows "\<exists>st' evs. profile_loop l ps i st = (None, st', evs) \<and>
           (kept l ps st st' \<or> (\<exists>b tb. won l ps i st st' b tb))"
  using assms
proof (induction ps arbitrary: i st)
  case Nil
  then show ?case by (simp add: kept_Nil)
next
  case (Cons p ps)
  have rest: "\<forall>q \<in> set ps. supports l q \<longrightarrow> (\<exists>t. timed_run l q = Inr t)"
    using Cons.prems by simp
  show ?case
  proof (cases "supports l p")
    case False
    from Cons.IH [OF rest, of "Suc i" st] obtain st' evs where
      r: "profile_loop l ps (Suc i) st = (None, st', evs)"
      and c: "kept l ps st st' \<or> (\<exists>b tb. won l ps (Suc i) st st' b tb)" by blast
    have "profile_loop l (p # ps) i st =
            (None, st', [Call_IsSupportedArgument i Profiling (make_argument_profiling l) False,
                         Print_NotSupported (GetTypeString p)] @ evs)"
      using False r by (simp add: profile_body_unsupported)
    moreover have "kept l (p # ps) st st' \<or> (\<exists>b tb. won l (p # ps) i st st' b tb)"
      using c kept_skip [OF False] won_skip [OF False] by blast
    ultimately show ?thesis by blast
  next
    case True
    then obtain t where t: "timed_run l p = Inr t" using Cons.prems by auto
    show ?thesis
    proof (cases "t < best_ave_time st")
      case False
      from Cons.IH [OF rest, of "Suc i" st] obtain st' evs where
        r: "profile_loop l ps (Suc i) st = (None, st', evs)"
        and c: "kept l ps st st' \<or> (\<exists>b tb. won l ps (Suc i) st st' b tb)" by blast
      have "\<exists>evs'. profile_loop l (p # ps) i st = (None, st', evs')"
        using True t False r by (simp add: profile_body_not_better)
      moreover have "kept l (p # ps) st st' \<or> (\<exists>b tb. won l (p # ps) i st st' b tb)"
        using c kept_slower [OF t False] won_slower [OF t False] by blast
      ultimately show ?thesis by blast
    next
      case less: True
      let ?st1 = "take_best l i p t st"
      from Cons.IH [OF rest, of "Suc i" ?st1] obtain st' evs where
        r: "profile_loop l ps (Suc i) ?st1 = (None, st', evs)"
        and c: "kept l ps ?st1 st' \<or> (\<exists>b tb. won l ps (Suc i) ?st1 st' b tb)" by blast
      have "\<exists>evs'. profile_loop l (p # ps) i st = (None, st', evs')"
        using True t less r by (simp add: profile_body_better)
      moreover have "\<exists>b tb. won l (p # ps) i st st' b tb"
        using c won_first [OF True t less] won_later [OF True t less] by blast
      ultimately show ?thesis by blast
    qed
  qed
qed


lemma profile_loop_state:
  "profile_loop l ps i st = (r, st', evs) \<Longrightarrow>
   st' = st \<or>
   (\<exists>b tb. b < length ps \<and> supports l (ps ! b) \<and> timed_run l (ps ! b) = Inr tb \<and>
      st' = take_best l (i + b) (ps ! b) tb st)"
proof (induction ps arbitrary: i st r st' evs)
  case Nil
  then show ?case by simp
next
  case (Cons p ps)
  show ?case
  proof (cases "supports l p")
    case False
    obtain r1 s1 e1 where r1: "profile_loop l ps (Suc i) st = (r1, s1, e1)"
      by (metis prod_cases3)
    have "st' = s1" using Cons.prems False r1 by (simp add: profile_body_unsupported)
    with Cons.IH [OF r1] show ?thesis by (auto intro: exI [of _ "Suc b" for b])
  next
    case True
    show ?thesis
    proof (cases "timed_run l p")
      case (Inl e)
      then show ?thesis using Cons.prems True by (simp add: profile_body_failed)
    next
      case (Inr t)
      show ?thesis
      proof (cases "t < best_ave_time st")
        case False
        obtain r1 s1 e1 where r1: "profile_loop l ps (Suc i) st = (r1, s1, e1)"
          by (metis prod_cases3)
        have "st' = s1" using Cons.prems True Inr False r1 by (simp add: profile_body_not_better)
        with Cons.IH [OF r1] show ?thesis by (auto intro: exI [of _ "Suc b" for b])
      next
        case less: True
        let ?s = "take_best l i p t st"
        obtain r1 s1 e1 where r1: "profile_loop l ps (Suc i) ?s = (r1, s1, e1)"
          by (metis prod_cases3)
        have eq: "st' = s1" using Cons.prems True Inr less r1 by (simp add: profile_body_better)
        from Cons.IH [OF r1] show ?thesis
        proof
          assume "s1 = ?s"
          then have "0 < length (p # ps) \<and> supports l ((p # ps) ! 0) \<and>
              timed_run l ((p # ps) ! 0) = Inr t \<and> st' = take_best l (i + 0) ((p # ps) ! 0) t st"
            using eq True Inr by simp
          then show ?thesis by blast
        next
          assume "\<exists>b tb. b < length ps \<and> supports l (ps ! b) \<and> timed_run l (ps ! b) = Inr tb \<and>
                    s1 = take_best l (Suc i + b) (ps ! b) tb ?s"
          then obtain b tb where "b < length ps" "supports l (ps ! b)" "timed_run l (ps ! b) = Inr tb"
            "s1 = take_best l (Suc i + b) (ps ! b) tb ?s" by blast
          then have "Suc b < length (p # ps) \<and> supports l ((p # ps) ! Suc b) \<and>
              timed_run l ((p # ps) ! Suc b) = Inr tb \<and>
              st' = take_best l (i + Suc b) ((p # ps) ! Suc b) tb st"
            using eq by simp
          then show ?thesis by blast
        qed
      qed
    qed
  qed
qed

lemma profile_body_events:
  "profile_body l i p st = (r, st', evs) \<Longrightarrow> e \<in> set evs \<Longrightarrow> profiling_event l e"
  by (auto simp: profile_body_def profiling_event_def Let_def split: if_splits sum.splits)

lemma profile_loop_events:
  "profile_loop l ps i st = (r, st', evs) \<Longrightarrow> e \<in> set evs \<Longrightarrow> profiling_event l e"
proof (induction ps arbitrary: i st r st' evs)
  case Nil
  then show ?case by simp
next
  case (Cons p ps)
  obtain r0 s0 e0 where b: "profile_body l i p st = (r0, s0, e0)" by (metis prod_cases3)
  show ?case
  proof (cases r0)
    case (Some x)
    then have "evs = e0" using Cons.prems(1) b by simp
    then show ?thesis using b Cons.prems(2) profile_body_events by blast
  next
    case None
    obtain r1 s1 e1 where r1: "profile_loop l ps (Suc i) s0 = (r1, s1, e1)"
      by (metis prod_cases3)
    have "evs = e0 @ e1" using Cons.prems(1) b None r1 by simp
    then have "e \<in> set e0 \<or> e \<in> set e1" using Cons.prems(2) by simp
    then show ?thesis using b profile_body_events Cons.IH [OF r1] by blast
  qed
qed

lemma guarded_Nil: "guarded []"
  by (simp add: guarded_def)

lemma guarded_append:
  assumes "guarded xs" and "guarded ys"
  shows "guarded (xs @ ys)"
  unfolding guarded_def
proof (intro allI impI)
  fix pre j a c post
  assume eq: "xs @ ys = pre @ Call_Run j a c # post"
  then consider us where "xs = pre @ us" "us @ ys = Call_Run j a c # post"
    | us where "xs @ us = pre" "ys = us @ Call_Run j a c # post"
    by (auto simp: append_eq_append_conv2)
  then show "\<exists>pre' ph. pre = pre' @ [Call_IsSupportedArgument j ph a True]"
  proof cases
    case 1
    show ?thesis
    proof (cases us)
      case Nil
      then have "ys = [] @ Call_Run j a c # post" using 1 by simp
      then obtain pre' ph where "[] = pre' @ [Call_IsSupportedArgument j ph a True]"
        using assms(2) unfolding guarded_def by blast
      then show ?thesis by simp
    next
      case (Cons u us')
      then have "xs = pre @ Call_Run j a c # us'" using 1 by simp
      then show ?thesis using assms(1) unfolding guarded_def by blast
    qed
  next
    case 2
    then obtain pre' ph where "us = pre' @ [Call_IsSupportedArgument j ph a True]"
      using assms(2) unfolding guarded_def by blast
    then have "pre = (xs @ pre') @ [Call_IsSupportedArgument j ph a True]" using 2 by simp
    then show ?thesis by blast
  qed
qed

lemma guarded_no_run:
  "(\<forall>e \<in> set evs. \<forall>j a c. e \<noteq> Call_Run j a c) \<Longrightarrow> guarded evs"
  unfolding guarded_def by (metis in_set_conv_decomp)

lemma guarded_check_run:
  "(\<forall>e \<in> set evs. \<forall>j a c. e \<noteq> Call_Run j a c) \<Longrightarrow>
   guarded (Call_IsSupportedArgument i ph a True # Call_Run i a c # evs)"
  unfolding guarded_def
proof (intro allI impI)
  fix pre j a' c' post
  assume no: "\<forall>e \<in> set evs. \<forall>j a c. e \<noteq> Call_Run j a c"
    and eq: "Call_IsSupportedArgument i ph a True # Call_Run i a c # evs = pre @ Call_Run j a' c' # post"
  show "\<exists>pre' ph. pre = pre' @ [Call_IsSupportedArgument j ph a' True]"
  proof (cases pre)
    case Nil
    then show ?thesis using eq by simp
  next
    case (Cons x pre1)
    then have x: "x = Call_IsSupportedArgument i ph a True"
      and eq1: "Call_Run i a c # evs = pre1 @ Call_Run j a' c' # post" using eq by simp_all
    show ?thesis
    proof (cases pre1)
      case Nil
      then show ?thesis using eq1 x Cons by simp
    next
      case (Cons y pre2)
      then have "evs = pre2 @ Call_Run j a' c' # post" using eq1 by simp
      then have "Call_Run j a' c' \<in> set evs" by simp
      then show ?thesis using no by blast
    qed
  qed
qed

lemma profile_body_guarded:
  "profile_body l i p st = (r, st', evs) \<Longrightarrow> guarded evs"
proof (cases "supports l p")
  case False
  assume "profile_body l i p st = (r, st', evs)"
  then have "evs = [Call_IsSupportedArgument i Profiling (make_argument_profiling l) False,
                 Print_NotSupported (GetTypeString p)]"
    using False by (simp add: profile_body_unsupported)
  then show ?thesis by (simp add: guarded_no_run)
next
  case True
  assume b: "profile_body l i p st = (r, st', evs)"
  then have "\<exists>rest. evs = Call_IsSupportedArgument i Profiling (make_argument_profiling l) True #
               Call_Run i (make_argument_profiling l) timed # rest \<and>
               (\<forall>e \<in> set rest. \<forall>j a c. e \<noteq> Call_Run j a c)"
    using True
    by (auto simp: profile_body_def supports_def Let_def split: sum.splits if_splits)
  then show ?thesis using guarded_check_run by blast
qed

lemma profile_loop_guarded:
  "profile_loop l ps i st = (r, st', evs) \<Longrightarrow> guarded evs"
proof (induction ps arbitrary: i st r st' evs)
  case Nil
  then show ?case by (simp add: guarded_Nil)
next
  case (Cons p ps)
  obtain r0 s0 e0 where b: "profile_body l i p st = (r0, s0, e0)" by (metis prod_cases3)
  show ?case
  proof (cases r0)
    case (Some x)
    then have "evs = e0" using Cons.prems(1) b by simp
    then show ?thesis using b profile_body_guarded by blast
  next
    case None
    obtain r1 s1 e1 where r1: "profile_loop l ps (Suc i) s0 = (r1, s1, e1)"
      by (metis prod_cases3)
    have "evs = e0 @ e1" using Cons.prems(1) b None r1 by simp
    then show ?thesis using guarded_append profile_body_guarded [OF b] Cons.IH [OF r1] by simp
  qed
qed

lemma run_best_not_found:
  "\<not> found st \<Longrightarrow> run_best l ps st = (Returned 0, [])"
  by (simp add: run_best_def)

lemma run_best_out_of_range:
  "found st \<Longrightarrow> best_op_id st < 0 \<or> length ps \<le> nat (best_op_id st) \<Longrightarrow>
   run_best l ps st =
     (Aborted IndexOutOfRange,
      [Print_BestPerf (best_ave_time st) (best_gb_per_sec st) (best_op_name st)])"
  by (simp add: run_best_def Let_def)

lemma run_best_unsupported:
  "found st \<Longrightarrow> 0 \<le> best_op_id st \<Longrightarrow> nat (best_op_id st) < length ps \<Longrightarrow>
   \<not> IsSupportedArgument (ps ! nat (best_op_id st)) Production (make_argument_production l) \<Longrightarrow>
   run_best l ps st =
     (Returned 0,
      [Print_BestPerf (best_ave_time st) (best_gb_per_sec st) (best_op_name st),
       Print_RunBest (GetTypeString (ps ! nat (best_op_id st)))] @
      [Call_IsSupportedArgument (nat (best_op_id st)) Production (make_argument_production l) False,
       Print_Done])"
  by (simp add: run_best_def Let_def)

lemma run_best_failed:
  "found st \<Longrightarrow> 0 \<le> best_op_id st \<Longrightarrow> nat (best_op_id st) < length ps \<Longrightarrow>
   IsSupportedArgument (ps ! nat (best_op_id st)) Production (make_argument_production l) \<Longrightarrow>
   Run (ps ! nat (best_op_id st)) (make_argument_production l) untimed = Inl e \<Longrightarrow>
   run_best l ps st =
     (Aborted e,
      [Print_BestPerf (best_ave_time st) (best_gb_per_sec st) (best_op_name st),
       Print_RunBest (GetTypeString (ps ! nat (best_op_id st)))] @
      [Call_IsSupportedArgument (nat (best_op_id st)) Production (make_argument_production l) True,
       Call_Run (nat (best_op_id st)) (make_argument_production l) untimed])"
  by (simp add: run_best_def Let_def)

lemma run_best_done:
  "found st \<Longrightarrow> 0 \<le> best_op_id st \<Longrightarrow> nat (best_op_id st) < length ps \<Longrightarrow>
   IsSupportedArgument (ps ! nat (best_op_id st)) Production (make_argument_production l) \<Longrightarrow>
   Run (ps ! nat (best_op_id st)) (make_argument_production l) untimed = Inr t \<Longrightarrow>
   run_best l ps st =
     (Returned 0,
      [Print_BestPerf (best_ave_time st) (best_gb_per_sec st) (best_op_name st),
       Print_RunBest (GetTypeString (ps ! nat (best_op_id st)))] @
      [Call_IsSupportedArgument (nat (best_op_id st)) Production (make_argument_production l) True,
       Call_Run (nat (best_op_id st)) (make_argument_production l) untimed,
       Print_Done])"
  by (simp add: run_best_def Let_def)

lemma run_best_guarded: "guarded (snd (run_best l ps st))"
proof (cases "found st")
  case False
  then show ?thesis by (simp add: run_best_not_found guarded_Nil)
next
  case True
  let ?i = "nat (best_op_id st)"
  let ?a = "make_argument_production l"
  let ?hd = "[Print_BestPerf (best_ave_time st) (best_gb_per_sec st) (best_op_name st),
              Print_RunBest (GetTypeString (ps ! ?i))]"
  have hd: "guarded ?hd" by (rule guarded_no_run) simp
  show ?thesis
  proof (cases "best_op_id st < 0 \<or> length ps \<le> ?i")
    case True
    with \<open>found st\<close> show ?thesis
      by (simp add: run_best_out_of_range guarded_no_run)
  next
    case False
    then have rng: "0 \<le> best_op_id st" "?i < length ps" by auto
    show ?thesis
    proof (cases "IsSupportedArgument (ps ! ?i) Production ?a")
      case False
      have "guarded [Call_IsSupportedArgument ?i Production ?a False, Print_Done]"
        by (rule guarded_no_run) simp
      then have "guarded (?hd @ [Call_IsSupportedArgument ?i Production ?a False, Print_Done])"
        using hd by (rule guarded_append [rotated])
      then show ?thesis
        using run_best_unsupported [OF \<open>found st\<close> rng False] by simp
    next
      case sup: True
      show ?thesis
      proof (cases "Run (ps ! ?i) ?a untimed")
        case (Inl e)
        have "guarded (Call_IsSupportedArgument ?i Production ?a True # Call_Run ?i ?a untimed # [])"
          by (rule guarded_check_run) simp
        then have "guarded (?hd @ [Call_IsSupportedArgument ?i Production ?a True,
                                   Call_Run ?i ?a untimed])"
          using hd by (rule guarded_append [rotated])
        then show ?thesis
          using run_best_failed [OF \<open>found st\<close> rng sup Inl] by simp
      next
        case (Inr t)
        have "guarded (Call_IsSupportedArgument ?i Production ?a True # Call_Run ?i ?a untimed #
                       [Print_Done])"
          by (rule guarded_check_run) simp
        then have "guarded (?hd @ [Call_IsSupportedArgument ?i Production ?a True,
                                   Call_Run ?i ?a untimed, Print_Done])"
          using hd by (rule guarded_append [rotated])
        then show ?thesis
          using run_best_done [OF \<open>found st\<close> rng sup Inr] by simp
      qed
    qed
  qed
qed

lemma best_init_simps [simp]:
  "found best_init = False" "best_op_id best_init = - 1" "best_op_name best_init = []"
  "best_ave_time best_init = FLT_MAX" "best_gb_per_sec best_init = Finite 0"
  by (simp_all add: best_init_def)

lemma take_best_simps [simp]:
  "found (take_best l i p t st) = True"
  "best_op_id (take_best l i p t st) = int i"
  "best_op_name (take_best l i p t st) = GetTypeString p"
  "best_gb_per_sec (take_best l i p t st) = gb_per_sec_of (num_bytes l) t"
  by (simp_all add: take_best_def)

subsection \<open>Further facts about the loop and the run of the best instance\<close>

lemma stub_simps [simp]:
  "GetTypeString (stub n s1 s2 r) = n"
  "IsSupportedArgument (stub n s1 s2 r) Profiling a = s1"
  "IsSupportedArgument (stub n s1 s2 r) Production a = s2"
  "Run (stub n s1 s2 r) a c = r"
  "supports l (stub n s1 s2 r) = s1"
  "timed_run l (stub n s1 s2 r) = r"
  by (simp_all add: stub_def supports_def timed_run_def)

lemma FLT_MAX_value: "FLT_MAX = 340282346638528859811704183484516925440"
  by (simp add: FLT_MAX_def)

lemma num_bytes_value:
  assumes "0 \<le> numXYElement l" "numXYElement l < 2 ^ 31"
    and "0 \<le> numScaleBiasMeanVarElement l" "numScaleBiasMeanVarElement l < 2 ^ 31"
  shows "unat (num_bytes l) =
           nat (numXYElement l) * (sizeof_XDataType + sizeof_YDataType) +
           nat (numScaleBiasMeanVarElement l) *
             (sizeof_ScaleDataType + sizeof_BiasDataType + 2 * sizeof_MeanVarDataType)"
proof -
  define n where "n = nat (numXYElement l)"
  define m where "m = nat (numScaleBiasMeanVarElement l)"
  have n: "numXYElement l = int n" "n < 2 ^ 31" using assms(1,2) by (simp_all add: n_def nat_less_iff)
  have m: "numScaleBiasMeanVarElement l = int m" "m < 2 ^ 31" using assms(3,4) by (simp_all add: m_def nat_less_iff)
  have w: "(of_nat (n * 8 + m * 16) :: 64 word) = num_bytes l"
    by (simp add: num_bytes_def n m sizeof_XDataType_def sizeof_YDataType_def
        sizeof_ScaleDataType_def sizeof_BiasDataType_def sizeof_MeanVarDataType_def)
  have "n * 8 + m * 16 < 2 ^ LENGTH(64)" using n(2) m(2) by simp
  with w have "unat (num_bytes l) = n * 8 + m * 16"
    by (rule of_nat_inverse)
  then show ?thesis
    by (simp add: n_def m_def sizeof_XDataType_def sizeof_YDataType_def
        sizeof_ScaleDataType_def sizeof_BiasDataType_def sizeof_MeanVarDataType_def)
qed

lemma main_num_bytes: "unat (num_bytes (main_locals b aligned)) = 33558528"
  by (simp add: num_bytes_def main_locals_def main_numXYElement main_numScaleBiasMeanVarElement
      sizeof_XDataType_def sizeof_YDataType_def
        sizeof_ScaleDataType_def sizeof_BiasDataType_def sizeof_MeanVarDataType_def)


lemma gb_per_sec_of_rounded:
  "gb_per_sec_of nb t = rounded_throughput (unat nb) t"
  by (simp add: gb_per_sec_of_def rounded_throughput_def)

lemma profile_loop_unsupported:
  assumes "\<forall>p \<in> set ps. \<not> supports l p"
  shows "\<exists>evs. profile_loop l ps i st = (None, st, evs) \<and>
           (\<forall>e \<in> set evs.
              (\<exists>j. e = Call_IsSupportedArgument j Profiling (make_argument_profiling l) False) \<or>
              (\<exists>n. e = Print_NotSupported n))"
  using assms
proof (induction ps arbitrary: i)
  case Nil
  then show ?case by simp
next
  case (Cons p ps)
  then have p: "\<not> supports l p" and ps: "\<forall>q \<in> set ps. \<not> supports l q" by simp_all
  from Cons.IH [OF ps, of "Suc i"] obtain evs where
    r: "profile_loop l ps (Suc i) st = (None, st, evs)"
    and e: "\<forall>e \<in> set evs.
              (\<exists>j. e = Call_IsSupportedArgument j Profiling (make_argument_profiling l) False) \<or>
              (\<exists>n. e = Print_NotSupported n)" by blast
  let ?evs = "[Call_IsSupportedArgument i Profiling (make_argument_profiling l) False,
               Print_NotSupported (GetTypeString p)] @ evs"
  have "profile_loop l (p # ps) i st = (None, st, ?evs)"
    using p r by (simp add: profile_body_unsupported)
  moreover have "\<forall>e \<in> set ?evs.
              (\<exists>j. e = Call_IsSupportedArgument j Profiling (make_argument_profiling l) False) \<or>
              (\<exists>n. e = Print_NotSupported n)"
    using e by auto
  ultimately show ?case by blast
qed

lemma profile_loop_append:
  "profile_loop l (pre @ post) i st =
     (case profile_loop l pre i st of
        (Some e, s, evs) \<Rightarrow> (Some e, s, evs)
      | (None, s, evs) \<Rightarrow>
          (case profile_loop l post (i + length pre) s of
             (r, s', evs') \<Rightarrow> (r, s', evs @ evs')))"
proof (induction pre arbitrary: i st)
  case Nil
  then show ?case by (simp split: prod.splits)
next
  case (Cons p pre)
  obtain r0 s0 e0 where b: "profile_body l i p st = (r0, s0, e0)" by (metis prod_cases3)
  show ?case
  proof (cases r0)
    case (Some x)
    then show ?thesis using b by simp
  next
    case None
    then show ?thesis using b Cons.IH [of "Suc i" s0]
      by (simp split: prod.splits option.splits)
  qed
qed

lemma same_verdict_body:
  "same_verdict l p q \<Longrightarrow> profile_body l i p st = profile_body l i q st"
  by (simp add: same_verdict_def profile_body_def supports_def timed_run_def Let_def)

lemma profile_body_checks:
  "profile_body l i p st = (r, st', evs) \<Longrightarrow> Call_IsSupportedArgument j ph a v \<in> set evs \<Longrightarrow>
   j = i \<and> v = IsSupportedArgument p ph a"
  by (auto simp: profile_body_def Let_def split: if_splits sum.splits)

lemma profile_loop_checks:
  "profile_loop l ps i st = (r, st', evs) \<Longrightarrow> Call_IsSupportedArgument j ph a v \<in> set evs \<Longrightarrow>
   i \<le> j \<and> j < i + length ps \<and> v = IsSupportedArgument (ps ! (j - i)) ph a"
proof (induction ps arbitrary: i st r st' evs)
  case Nil
  then show ?case by simp
next
  case (Cons p ps)
  obtain r0 s0 e0 where b: "profile_body l i p st = (r0, s0, e0)" by (metis prod_cases3)
  show ?case
  proof (cases r0)
    case (Some x)
    then have "evs = e0" using Cons.prems(1) b by simp
    then show ?thesis using profile_body_checks [OF b] Cons.prems(2) by simp
  next
    case None
    obtain r1 s1 e1 where r1: "profile_loop l ps (Suc i) s0 = (r1, s1, e1)"
      by (metis prod_cases3)
    have "evs = e0 @ e1" using Cons.prems(1) b None r1 by simp
    then consider "Call_IsSupportedArgument j ph a v \<in> set e0"
      | "Call_IsSupportedArgument j ph a v \<in> set e1" using Cons.prems(2) by auto
    then show ?thesis
    proof cases
      case 1
      then show ?thesis using profile_body_checks [OF b] by simp
    next
      case 2
      from Cons.IH [OF r1 2] have "Suc i \<le> j" "j < Suc i + length ps"
        "v = IsSupportedArgument (ps ! (j - Suc i)) ph a" by simp_all
      moreover from this have "(p # ps) ! (j - i) = ps ! (j - Suc i)"
        by (simp add: nth_Cons' Suc_diff_le)
      ultimately show ?thesis by simp
    qed
  qed
qed

lemma run_best_checks:
  "Call_IsSupportedArgument j ph a v \<in> set (snd (run_best l ps st)) \<Longrightarrow>
   j < length ps \<and> v = IsSupportedArgument (ps ! j) ph a"
  by (auto simp: run_best_def Let_def split: if_splits sum.splits)

lemma run_best_runs:
  "Call_Run j a c \<in> set (snd (run_best l ps st)) \<Longrightarrow>
   j = nat (best_op_id st) \<and> a = make_argument_production l \<and> c = untimed"
  by (auto simp: run_best_def Let_def split: if_splits sum.splits)

lemma select_and_run_guarded: "guarded (snd (select_and_run l ps))"
proof -
  obtain r st evs where p: "profile_loop l ps 0 best_init = (r, st, evs)" by (metis prod_cases3)
  have hd: "guarded [Print_Found (length ps), Print_RunAll]" by (rule guarded_no_run) simp
  have g: "guarded evs" using p by (rule profile_loop_guarded)
  show ?thesis
  proof (cases r)
    case (Some e)
    then have "snd (select_and_run l ps) = [Print_Found (length ps), Print_RunAll] @ evs"
      using p by (simp add: select_and_run_def)
    then show ?thesis using guarded_append [OF hd g] by simp
  next
    case None
    then have "snd (select_and_run l ps) =
        [Print_Found (length ps), Print_RunAll] @ (evs @ snd (run_best l ps st))"
      using p by (simp add: select_and_run_def split: prod.splits)
    then show ?thesis
      using guarded_append [OF hd guarded_append [OF g run_best_guarded]] by simp
  qed
qed

lemma select_and_run_checks:
  assumes "Call_IsSupportedArgument j ph a v \<in> set (snd (select_and_run l ps))"
  shows "j < length ps \<and> v = IsSupportedArgument (ps ! j) ph a"
proof -
  obtain r st evs where p: "profile_loop l ps 0 best_init = (r, st, evs)" by (metis prod_cases3)
  have "set (snd (select_and_run l ps)) \<subseteq>
          {Print_Found (length ps), Print_RunAll} \<union> set evs \<union> set (snd (run_best l ps st))"
    using p by (auto simp: select_and_run_def split: option.splits prod.splits)
  then consider "Call_IsSupportedArgument j ph a v \<in> set evs"
    | "Call_IsSupportedArgument j ph a v \<in> set (snd (run_best l ps st))"
    using assms by auto
  then show ?thesis
  proof cases
    case 1
    then show ?thesis using profile_loop_checks [OF p] by fastforce
  next
    case 2
    then show ?thesis by (rule run_best_checks)
  qed
qed

lemma profile_body_eval:
  "profile_body l i p st =
     (if supports l p
      then (case timed_run l p of
              Inl e \<Rightarrow>
                (Some e, st,
                 [Call_IsSupportedArgument i Profiling (make_argument_profiling l) True,
                  Call_Run i (make_argument_profiling l) timed])
            | Inr t \<Rightarrow>
                (None, if t < best_ave_time st then take_best l i p t st else st,
                 [Call_IsSupportedArgument i Profiling (make_argument_profiling l) True,
                  Call_Run i (make_argument_profiling l) timed,
                  Print_Perf t (gb_per_sec_of (num_bytes l) t) (GetTypeString p)]))
      else (None, st,
            [Call_IsSupportedArgument i Profiling (make_argument_profiling l) False,
             Print_NotSupported (GetTypeString p)]))"
  by (simp add: profile_body_def supports_def timed_run_def take_best_def Let_def
      split: sum.splits)

lemma tie_loop:
  "profile_loop l scenario_tie 0 best_init =
     (None, take_best l 1 (stub ''instance_1'' True True (Inr 3.2)) 3.2 best_init,
      [Call_IsSupportedArgument 0 Profiling (make_argument_profiling l) True,
       Call_Run 0 (make_argument_profiling l) timed,
       Print_Perf 5 (gb_per_sec_of (num_bytes l) 5) ''instance_0'',
       Call_IsSupportedArgument 1 Profiling (make_argument_profiling l) True,
       Call_Run 1 (make_argument_profiling l) timed,
       Print_Perf 3.2 (gb_per_sec_of (num_bytes l) 3.2) ''instance_1'',
       Call_IsSupportedArgument 2 Profiling (make_argument_profiling l) True,
       Call_Run 2 (make_argument_profiling l) timed,
       Print_Perf 3.2 (gb_per_sec_of (num_bytes l) 3.2) ''instance_2''])"
  by (simp add: scenario_tie_def profile_body_eval FLT_MAX_value)

lemma single_loop:
  "profile_loop l scenario_single 0 best_init =
     (None, take_best l 0 (stub ''X'' True True (Inr 1)) 1 best_init,
      [Call_IsSupportedArgument 0 Profiling (make_argument_profiling l) True,
       Call_Run 0 (make_argument_profiling l) timed,
       Print_Perf 1 (gb_per_sec_of (num_bytes l) 1) ''X''])"
  by (simp add: scenario_single_def profile_body_eval FLT_MAX_value)

lemma mismatch_loop:
  "profile_loop l scenario_mismatch 0 best_init =
     (None, take_best l 0 (stub ''X'' True False (Inr 1)) 1 best_init,
      [Call_IsSupportedArgument 0 Profiling (make_argument_profiling l) True,
       Call_Run 0 (make_argument_profiling l) timed,
       Print_Perf 1 (gb_per_sec_of (num_bytes l) 1) ''X''])"
  by (simp add: scenario_mismatch_def profile_body_eval FLT_MAX_value)

lemma found_in_range:
  assumes "profile_loop l ps 0 best_init = (r, st, evs)" and "found st"
  shows "\<exists>b < length ps. best_op_id st = int b \<and> supports l (ps ! b) \<and>
           timed_run l (ps ! b) = Inr (best_ave_time st) \<and>
           best_op_name st = GetTypeString (ps ! b) \<and>
           best_gb_per_sec st = gb_per_sec_of (num_bytes l) (best_ave_time st)"
proof -
  from profile_loop_state [OF assms(1)] have
    "st = best_init \<or>
     (\<exists>b tb. b < length ps \<and> supports l (ps ! b) \<and> timed_run l (ps ! b) = Inr tb \<and>
        st = take_best l (0 + b) (ps ! b) tb best_init)" .
  moreover have "st \<noteq> best_init" using assms(2) by auto
  ultimately obtain b tb where "b < length ps" "supports l (ps ! b)"
    "timed_run l (ps ! b) = Inr tb" "st = take_best l b (ps ! b) tb best_init" by auto
  then show ?thesis by auto
qed

lemma single_run:
  "select_and_run l scenario_single =
     (Returned 0,
      [Print_Found 1, Print_RunAll,
       Call_IsSupportedArgument 0 Profiling (make_argument_profiling l) True,
       Call_Run 0 (make_argument_profiling l) timed,
       Print_Perf 1 (gb_per_sec_of (num_bytes l) 1) ''X'',
       Print_BestPerf 1 (gb_per_sec_of (num_bytes l) 1) ''X'',
       Print_RunBest ''X'',
       Call_IsSupportedArgument 0 Production (make_argument_production l) True,
       Call_Run 0 (make_argument_production l) untimed,
       Print_Done])"
  by (simp add: select_and_run_def single_loop run_best_def Let_def)
    (simp add: scenario_single_def)

lemma example_elements:
  "numXYElement example_locals = 4194304" "numScaleBiasMeanVarElement example_locals = 256"
  by (simp_all add: example_locals_def main_locals_def main_numXYElement
      main_numScaleBiasMeanVarElement)

subsection \<open>Selection\<close>

text \<open>
  Claim C1 (amended). Every supported instance returns an elapsed time, and at least one
  of these times is below the initial value of \<^verbatim>\<open>best_ave_time\<close>, the largest finite
  \<^verbatim>\<open>float\<close>. Then the loop ends with \<^verbatim>\<open>found\<close> set, and the instance it names is supported,
  has the least elapsed time of all supported instances, and is the first such instance:
  every supported instance before it is strictly slower.
\<close>

theorem selection_first_minimum:
  assumes "\<forall>p \<in> set ps. supports l p \<longrightarrow> (\<exists>t. timed_run l p = Inr t)"
    and "\<exists>p \<in> set ps. \<exists>t. supports l p \<and> timed_run l p = Inr t \<and> t < FLT_MAX"
  shows "\<exists>st evs b. profile_loop l ps 0 best_init = (None, st, evs) \<and>
           found st \<and> b < length ps \<and> best_op_id st = int b \<and>
           best_op_name st = GetTypeString (ps ! b) \<and>
           supports l (ps ! b) \<and> timed_run l (ps ! b) = Inr (best_ave_time st) \<and>
           (\<forall>k < length ps. \<forall>t. supports l (ps ! k) \<longrightarrow> timed_run l (ps ! k) = Inr t
              \<longrightarrow> best_ave_time st \<le> t) \<and>
           (\<forall>k < b. \<forall>t. supports l (ps ! k) \<longrightarrow> timed_run l (ps ! k) = Inr t
              \<longrightarrow> best_ave_time st < t)"
proof -
  from profile_loop_result [OF assms(1), of 0 best_init] obtain st evs where
    r: "profile_loop l ps 0 best_init = (None, st, evs)"
    and c: "kept l ps best_init st \<or> (\<exists>b tb. won l ps 0 best_init st b tb)" by blast
  from assms(2) obtain k t where k: "k < length ps" "supports l (ps ! k)"
    "timed_run l (ps ! k) = Inr t" "t < FLT_MAX"
    by (metis in_set_conv_nth)
  have "\<not> kept l ps best_init st"
    using k by (auto simp: kept_def)
  with c obtain b tb where w: "won l ps 0 best_init st b tb" by blast
  then have st: "st = take_best l b (ps ! b) tb best_init" by (simp add: won_def)
  have "found st \<and> b < length ps \<and> best_op_id st = int b \<and>
           best_op_name st = GetTypeString (ps ! b) \<and>
           supports l (ps ! b) \<and> timed_run l (ps ! b) = Inr (best_ave_time st) \<and>
           (\<forall>k < length ps. \<forall>t. supports l (ps ! k) \<longrightarrow> timed_run l (ps ! k) = Inr t
              \<longrightarrow> best_ave_time st \<le> t) \<and>
           (\<forall>k < b. \<forall>t. supports l (ps ! k) \<longrightarrow> timed_run l (ps ! k) = Inr t
              \<longrightarrow> best_ave_time st < t)"
    using w unfolding st by (simp add: won_def)
  with r show ?thesis by blast
qed

theorem selection_first_minimum_witness:
  "supports example_locals (scenario_tie ! 0) \<and>
   timed_run example_locals (scenario_tie ! 0) = Inr 5 \<and>
   supports example_locals (scenario_tie ! 1) \<and>
   timed_run example_locals (scenario_tie ! 1) = Inr 3.2 \<and>
   supports example_locals (scenario_tie ! 2) \<and>
   timed_run example_locals (scenario_tie ! 2) = Inr 3.2 \<and>
   (3.2 :: real) < FLT_MAX \<and>
   fst (profile_loop example_locals scenario_tie 0 best_init) = None \<and>
   found (fst (snd (profile_loop example_locals scenario_tie 0 best_init))) \<and>
   best_op_id (fst (snd (profile_loop example_locals scenario_tie 0 best_init))) = 1 \<and>
   best_op_name (fst (snd (profile_loop example_locals scenario_tie 0 best_init))) = ''instance_1'' \<and>
   best_ave_time (fst (snd (profile_loop example_locals scenario_tie 0 best_init))) = 3.2"
proof -
  let ?l = example_locals
  have h1: "\<forall>p \<in> set scenario_tie. supports ?l p \<longrightarrow> (\<exists>t. timed_run ?l p = Inr t)"
  proof (intro ballI impI)
    fix p assume "p \<in> set scenario_tie"
    then obtain n t where "p = stub n True True (Inr t)" by (auto simp: scenario_tie_def)
    then have "timed_run ?l p = Inr t" by simp
    then show "\<exists>t. timed_run ?l p = Inr t" ..
  qed
  have h2: "\<exists>p \<in> set scenario_tie. \<exists>t. supports ?l p \<and> timed_run ?l p = Inr t \<and> t < FLT_MAX"
  proof (intro bexI exI conjI)
    show "supports ?l (stub ''instance_0'' True True (Inr 5))" by simp
    show "timed_run ?l (stub ''instance_0'' True True (Inr 5)) = Inr 5" by simp
    show "(5 :: real) < FLT_MAX" by (simp add: FLT_MAX_value)
    show "stub ''instance_0'' True True (Inr 5) \<in> set scenario_tie"
      by (simp add: scenario_tie_def)
  qed
  from selection_first_minimum [OF h1 h2] obtain st evs b where
    r: "profile_loop ?l scenario_tie 0 best_init = (None, st, evs)"
    and f: "found st" and b: "b < length scenario_tie" and id: "best_op_id st = int b"
    and n: "best_op_name st = GetTypeString (scenario_tie ! b)"
    and t: "timed_run ?l (scenario_tie ! b) = Inr (best_ave_time st)"
    and le: "\<forall>k < length scenario_tie. \<forall>t. supports ?l (scenario_tie ! k) \<longrightarrow>
               timed_run ?l (scenario_tie ! k) = Inr t \<longrightarrow> best_ave_time st \<le> t"
    and lt: "\<forall>k < b. \<forall>t. supports ?l (scenario_tie ! k) \<longrightarrow>
               timed_run ?l (scenario_tie ! k) = Inr t \<longrightarrow> best_ave_time st < t"
    by blast
  have s1: "supports ?l (scenario_tie ! 1)" "timed_run ?l (scenario_tie ! 1) = Inr 3.2"
    by (simp_all add: scenario_tie_def)
  have l1: "1 < length scenario_tie" by (simp add: scenario_tie_def)
  from le l1 s1 have "best_ave_time st \<le> 3.2" by blast
  have "b = 0 \<or> b = 1 \<or> b = 2" using b by (auto simp: scenario_tie_def)
  then have b1: "b = 1"
  proof (elim disjE)
    assume "b = 0"
    then have "best_ave_time st = 5" using t by (simp add: scenario_tie_def)
    with \<open>best_ave_time st \<le> 3.2\<close> show ?thesis by simp
  next
    assume "b = 1" then show ?thesis .
  next
    assume "b = 2"
    then have "1 < b" by simp
    with lt s1 have "best_ave_time st < 3.2" by blast
    moreover have "best_ave_time st = 3.2" using t \<open>b = 2\<close> by (simp add: scenario_tie_def)
    ultimately show ?thesis by simp
  qed
  have "best_ave_time st = 3.2" using t b1 by (simp add: scenario_tie_def)
  moreover have "best_op_name st = ''instance_1''" using n b1 by (simp add: scenario_tie_def)
  moreover have "(3.2 :: real) < FLT_MAX" by (simp add: FLT_MAX_value)
  ultimately show ?thesis using r f id b1 by (simp add: scenario_tie_def)
qed

text \<open>
  The claim as stated fails: a single supported instance whose elapsed time is the
  largest finite \<^verbatim>\<open>float\<close> has the least time, and the loop leaves \<^verbatim>\<open>found\<close> unset and
  the index at -1, because the comparison with the initial \<^verbatim>\<open>best_ave_time\<close> is strict.
\<close>

theorem selection_sentinel_counterexample:
  "scenario_sentinel \<noteq> [] \<and>
   supports example_locals (scenario_sentinel ! 0) \<and>
   timed_run example_locals (scenario_sentinel ! 0) = Inr FLT_MAX \<and>
   fst (profile_loop example_locals scenario_sentinel 0 best_init) = None \<and>
   \<not> found (fst (snd (profile_loop example_locals scenario_sentinel 0 best_init))) \<and>
   best_op_id (fst (snd (profile_loop example_locals scenario_sentinel 0 best_init))) = - 1 \<and>
   fst (main_prog example_buffers scenario_sentinel) = Returned 0 \<and>
   snd (main_prog example_buffers scenario_sentinel) =
     [Print_Found 1, Print_RunAll,
      Call_IsSupportedArgument 0 Profiling (make_argument_profiling example_locals) True,
      Call_Run 0 (make_argument_profiling example_locals) timed,
      Print_Perf FLT_MAX (gb_per_sec_of (num_bytes example_locals) FLT_MAX) ''instance_0'']"
  by (simp add: scenario_sentinel_def profile_body_not_better main_prog_select select_and_run_def
      run_best_not_found example_locals_def)

text \<open>
  Claim C7. Selection is deterministic: the outcome of the loop is a function of the
  list of instances through their names, their support verdicts and the results of
  their timed runs only. Two lists that agree on these, position by position, give the
  same failure status, the same best index, name, time and throughput, and the same
  events, from any starting index and any starting values; anything else about an
  instance (its answer in the production phase, an untimed run) has no influence.
\<close>

theorem selection_deterministic:
  assumes "list_all2 (same_verdict l) ps qs"
  shows "profile_loop l ps i st = profile_loop l qs i st"
  using assms
proof (induction ps qs arbitrary: i st rule: list_all2_induct)
  case Nil
  then show ?case by simp
next
  case (Cons p ps q qs)
  have "profile_body l i p st = profile_body l i q st"
    using Cons.hyps(1) by (rule same_verdict_body)
  then show ?case using Cons.IH by (simp split: prod.splits option.splits)
qed

theorem selection_deterministic_witness:
  "list_all2 (same_verdict example_locals) scenario_tie scenario_tie_variant \<and>
   IsSupportedArgument (scenario_tie ! 0) Production (make_argument_production example_locals) \<and>
   \<not> IsSupportedArgument (scenario_tie_variant ! 0) Production
       (make_argument_production example_locals) \<and>
   profile_loop example_locals scenario_tie 0 best_init =
     profile_loop example_locals scenario_tie_variant 0 best_init \<and>
   best_op_id (fst (snd (profile_loop example_locals scenario_tie_variant 0 best_init))) = 1"
proof -
  have h: "list_all2 (same_verdict example_locals) scenario_tie scenario_tie_variant"
    by (simp add: scenario_tie_def scenario_tie_variant_def same_verdict_def)
  from selection_deterministic [OF h, of 0 best_init]
  have e: "profile_loop example_locals scenario_tie 0 best_init =
           profile_loop example_locals scenario_tie_variant 0 best_init" .
  have "best_op_id (fst (snd (profile_loop example_locals scenario_tie 0 best_init))) = 1"
    by (simp add: tie_loop)
  with e h show ?thesis by (simp add: scenario_tie_def scenario_tie_variant_def)
qed

subsection \<open>No supported instance\<close>

text \<open>
  Claim C3. When the list is empty or no instance supports the argument, the loop leaves
  the variables at their initial values (not found, index -1, empty name), the program
  returns 0, and all it did was to ask each instance and print that it does not
  support the problem: \<^verbatim>\<open>Run\<close> is never called and the block that runs the best
  instance is not entered.
\<close>

theorem none_supported_nothing_run:
  assumes "\<forall>p \<in> set ps. \<not> supports l p"
  shows "\<exists>evs. profile_loop l ps 0 best_init = (None, best_init, evs) \<and>
           \<not> found best_init \<and> best_op_id best_init = - 1 \<and> best_op_name best_init = [] \<and>
           select_and_run l ps = (Returned 0, [Print_Found (length ps), Print_RunAll] @ evs) \<and>
           (\<forall>e \<in> set evs.
              (\<exists>j. e = Call_IsSupportedArgument j Profiling (make_argument_profiling l) False) \<or>
              (\<exists>n. e = Print_NotSupported n))"
proof -
  from profile_loop_unsupported [OF assms, of 0 best_init] obtain evs where
    r: "profile_loop l ps 0 best_init = (None, best_init, evs)"
    and e: "\<forall>e \<in> set evs.
              (\<exists>j. e = Call_IsSupportedArgument j Profiling (make_argument_profiling l) False) \<or>
              (\<exists>n. e = Print_NotSupported n)" by blast
  have "select_and_run l ps = (Returned 0, [Print_Found (length ps), Print_RunAll] @ evs)"
    using r by (simp add: select_and_run_def run_best_not_found)
  with r e show ?thesis by simp
qed

theorem none_supported_nothing_run_witness:
  "\<not> supports example_locals (scenario_none ! 0) \<and>
   \<not> supports example_locals (scenario_none ! 1) \<and>
   \<not> supports example_locals (scenario_none ! 2) \<and>
   length scenario_none = 3 \<and>
   main_prog example_buffers scenario_none =
     (Returned 0,
      [Print_Found 3, Print_RunAll,
       Call_IsSupportedArgument 0 Profiling (make_argument_profiling example_locals) False,
       Print_NotSupported ''instance_0'',
       Call_IsSupportedArgument 1 Profiling (make_argument_profiling example_locals) False,
       Print_NotSupported ''instance_1'',
       Call_IsSupportedArgument 2 Profiling (make_argument_profiling example_locals) False,
       Print_NotSupported ''instance_2'']) \<and>
   fst (snd (profile_loop example_locals scenario_none 0 best_init)) = best_init \<and>
   main_prog example_buffers [] = (Returned 0, [Print_Found 0, Print_RunAll])"
proof -
  let ?l = example_locals
  have h: "\<forall>p \<in> set scenario_none. \<not> supports ?l p" by (simp add: scenario_none_def)
  from none_supported_nothing_run [OF h] obtain evs where
    r: "profile_loop ?l scenario_none 0 best_init = (None, best_init, evs)"
    and s: "select_and_run ?l scenario_none =
              (Returned 0, [Print_Found (length scenario_none), Print_RunAll] @ evs)" by blast
  have "profile_loop ?l scenario_none 0 best_init =
     (None, best_init,
      [Call_IsSupportedArgument 0 Profiling (make_argument_profiling ?l) False,
       Print_NotSupported ''instance_0'',
       Call_IsSupportedArgument 1 Profiling (make_argument_profiling ?l) False,
       Print_NotSupported ''instance_1'',
       Call_IsSupportedArgument 2 Profiling (make_argument_profiling ?l) False,
       Print_NotSupported ''instance_2''])"
    by (simp add: scenario_none_def profile_body_unsupported)
  with r have evs: "evs =
      [Call_IsSupportedArgument 0 Profiling (make_argument_profiling ?l) False,
       Print_NotSupported ''instance_0'',
       Call_IsSupportedArgument 1 Profiling (make_argument_profiling ?l) False,
       Print_NotSupported ''instance_1'',
       Call_IsSupportedArgument 2 Profiling (make_argument_profiling ?l) False,
       Print_NotSupported ''instance_2'']" by simp
  have len: "length scenario_none = 3" by (simp add: scenario_none_def)
  have "main_prog example_buffers scenario_none = select_and_run ?l scenario_none"
    by (simp add: main_prog_select example_locals_def)
  moreover have "main_prog example_buffers [] = (Returned 0, [Print_Found 0, Print_RunAll])"
    by (simp add: main_prog_select select_and_run_def run_best_not_found)
  ultimately show ?thesis using r s evs len h by (simp add: scenario_none_def)
qed

subsection \<open>The support check before every run\<close>

text \<open>
  Claim C4. In every execution of the profiling loop followed by the run of the best
  instance, each call of \<^verbatim>\<open>Run\<close> comes immediately after a call of
  \<^verbatim>\<open>IsSupportedArgument\<close> on the same instance and the same argument that returned true,
  and that is what the instance answers for this argument: \<^verbatim>\<open>Run\<close> is never called on an
  argument whose check returned false.
\<close>

theorem run_guarded_by_support_check:
  assumes "snd (select_and_run l ps) = pre @ Call_Run j a c # post"
  shows "\<exists>pre' ph. pre = pre' @ [Call_IsSupportedArgument j ph a True] \<and>
           j < length ps \<and> IsSupportedArgument (ps ! j) ph a"
proof -
  from select_and_run_guarded [of l ps] assms obtain pre' ph where
    p: "pre = pre' @ [Call_IsSupportedArgument j ph a True]"
    unfolding guarded_def by blast
  then have "Call_IsSupportedArgument j ph a True \<in> set (snd (select_and_run l ps))"
    using assms by simp
  from select_and_run_checks [OF this] p show ?thesis by blast
qed

theorem run_guarded_by_support_check_witness:
  "snd (select_and_run example_locals scenario_single) =
     [Print_Found 1, Print_RunAll,
      Call_IsSupportedArgument 0 Profiling (make_argument_profiling example_locals) True,
      Call_Run 0 (make_argument_profiling example_locals) timed,
      Print_Perf 1 (gb_per_sec_of (num_bytes example_locals) 1) ''X'',
      Print_BestPerf 1 (gb_per_sec_of (num_bytes example_locals) 1) ''X'',
      Print_RunBest ''X'',
      Call_IsSupportedArgument 0 Production (make_argument_production example_locals) True] @
     Call_Run 0 (make_argument_production example_locals) untimed # [Print_Done] \<and>
   (\<exists>pre' ph.
      [Print_Found 1, Print_RunAll,
       Call_IsSupportedArgument 0 Profiling (make_argument_profiling example_locals) True,
       Call_Run 0 (make_argument_profiling example_locals) timed,
       Print_Perf 1 (gb_per_sec_of (num_bytes example_locals) 1) ''X'',
       Print_BestPerf 1 (gb_per_sec_of (num_bytes example_locals) 1) ''X'',
       Print_RunBest ''X'',
       Call_IsSupportedArgument 0 Production (make_argument_production example_locals) True] =
      pre' @ [Call_IsSupportedArgument 0 ph (make_argument_production example_locals) True] \<and>
      0 < length scenario_single \<and>
      IsSupportedArgument (scenario_single ! 0) ph (make_argument_production example_locals))"
proof -
  let ?l = example_locals
  let ?pre = "[Print_Found 1, Print_RunAll,
      Call_IsSupportedArgument 0 Profiling (make_argument_profiling ?l) True,
      Call_Run 0 (make_argument_profiling ?l) timed,
      Print_Perf 1 (gb_per_sec_of (num_bytes ?l) 1) ''X'',
      Print_BestPerf 1 (gb_per_sec_of (num_bytes ?l) 1) ''X'',
      Print_RunBest ''X'',
      Call_IsSupportedArgument 0 Production (make_argument_production ?l) True]"
  have h: "snd (select_and_run ?l scenario_single) =
             ?pre @ Call_Run 0 (make_argument_production ?l) untimed # [Print_Done]"
    by (simp add: single_run)
  from run_guarded_by_support_check [OF h] h show ?thesis by blast
qed

subsection \<open>Timed and untimed runs\<close>

text \<open>
  Claim C6. Every call of \<^verbatim>\<open>Run\<close> in the profiling loop passes the null stream with timing
  enabled, the call of \<^verbatim>\<open>Run\<close> for the best instance passes it with timing disabled, and
  the best time the loop records is what a timed run of some instance returned.
\<close>

theorem profiling_timed_production_untimed:
  "(\<forall>e \<in> set (snd (snd (profile_loop l ps i st))). \<forall>j a c.
      e = Call_Run j a c \<longrightarrow> c = \<lparr> stream_id = None, time_kernel = True \<rparr>) \<and>
   (\<forall>e \<in> set (snd (run_best l ps st')). \<forall>j a c.
      e = Call_Run j a c \<longrightarrow> c = \<lparr> stream_id = None, time_kernel = False \<rparr>) \<and>
   (found (fst (snd (profile_loop l ps 0 best_init))) \<longrightarrow>
      (\<exists>k < length ps.
         Run (ps ! k) (make_argument_profiling l) \<lparr> stream_id = None, time_kernel = True \<rparr> =
           Inr (best_ave_time (fst (snd (profile_loop l ps 0 best_init))))))"
proof (intro conjI ballI allI impI)
  fix e j a c
  assume "e \<in> set (snd (snd (profile_loop l ps i st)))" and e: "e = Call_Run j a c"
  moreover obtain r s evs where "profile_loop l ps i st = (r, s, evs)" by (metis prod_cases3)
  ultimately have "profiling_event l e" using profile_loop_events by fastforce
  then show "c = \<lparr> stream_id = None, time_kernel = True \<rparr>"
    using e by (auto simp: profiling_event_def timed_def)
next
  fix e j a c
  assume "e \<in> set (snd (run_best l ps st'))" and "e = Call_Run j a c"
  then have "c = untimed" using run_best_runs by blast
  then show "c = \<lparr> stream_id = None, time_kernel = False \<rparr>" by (simp add: untimed_def)
next
  assume f: "found (fst (snd (profile_loop l ps 0 best_init)))"
  obtain r s evs where p: "profile_loop l ps 0 best_init = (r, s, evs)" by (metis prod_cases3)
  with f have "found s" by simp
  from found_in_range [OF p this] obtain b where "b < length ps"
    "timed_run l (ps ! b) = Inr (best_ave_time s)" by blast
  then show "\<exists>k < length ps.
         Run (ps ! k) (make_argument_profiling l) \<lparr> stream_id = None, time_kernel = True \<rparr> =
           Inr (best_ave_time (fst (snd (profile_loop l ps 0 best_init))))"
    using p by (auto simp: timed_run_def timed_def)
qed

theorem profiling_timed_production_untimed_witness:
  "Call_Run 0 (make_argument_profiling example_locals) timed
     \<in> set (snd (snd (profile_loop example_locals scenario_single 0 best_init))) \<and>
   time_kernel timed \<and>
   Call_Run 0 (make_argument_production example_locals) untimed
     \<in> set (snd (run_best example_locals scenario_single
                    (fst (snd (profile_loop example_locals scenario_single 0 best_init))))) \<and>
   \<not> time_kernel untimed \<and>
   found (fst (snd (profile_loop example_locals scenario_single 0 best_init))) \<and>
   Run (scenario_single ! 0) (make_argument_profiling example_locals)
       \<lparr> stream_id = None, time_kernel = True \<rparr> =
     Inr (best_ave_time (fst (snd (profile_loop example_locals scenario_single 0 best_init))))"
proof -
  let ?l = example_locals
  let ?st = "fst (snd (profile_loop ?l scenario_single 0 best_init))"
  have m1: "Call_Run 0 (make_argument_profiling ?l) timed
              \<in> set (snd (snd (profile_loop ?l scenario_single 0 best_init)))"
    by (simp add: single_loop)
  have m2: "Call_Run 0 (make_argument_production ?l) untimed
              \<in> set (snd (run_best ?l scenario_single ?st))"
    by (simp add: single_loop run_best_def Let_def) (simp add: scenario_single_def)
  have f: "found ?st" by (simp add: single_loop)
  note t = profiling_timed_production_untimed [of ?l scenario_single 0 best_init ?st]
  from t m1 have c1: "timed = \<lparr> stream_id = None, time_kernel = True \<rparr>" by blast
  from t m2 have c2: "untimed = \<lparr> stream_id = None, time_kernel = False \<rparr>" by blast
  from t f obtain k where "k < length scenario_single"
    "Run (scenario_single ! k) (make_argument_profiling ?l) \<lparr> stream_id = None, time_kernel = True \<rparr>
       = Inr (best_ave_time ?st)" by blast
  moreover from this have "k = 0" by (simp add: scenario_single_def)
  ultimately have r: "Run (scenario_single ! 0) (make_argument_profiling ?l)
       \<lparr> stream_id = None, time_kernel = True \<rparr> = Inr (best_ave_time ?st)" by simp
  have "time_kernel timed" by (subst c1) simp
  moreover have "\<not> time_kernel untimed" by (subst c2) simp
  ultimately show ?thesis using m1 m2 f r by blast
qed

subsection \<open>Throughput\<close>

text \<open>
  Claim C8 (amended). The number of bytes is
  \<^verbatim>\<open>numXYElement * (sizeof X + sizeof Y) + numScaleBiasMeanVarElement * (sizeof Scale +
  sizeof Bias + 2 * sizeof MeanVar)\<close> (the element counts being non-negative 32-bit
  values, nothing wraps in \<^verbatim>\<open>std::size_t\<close>). For every supported instance whose timed run
  returns an elapsed time, the throughput printed is this number converted to
  \<^verbatim>\<open>double\<close>, divided by \<open>10\<^sup>6\<close> and by the elapsed time in \<^verbatim>\<open>double\<close>, and narrowed to
  \<^verbatim>\<open>float\<close>; the throughput kept for the best instance is the one computed in this way
  from the best instance's own elapsed time. This value is the quotient of the bytes by
  \<open>10\<^sup>6\<close> times the elapsed time up to rounding only: for an elapsed time other than zero
  and a quotient of magnitude between \<open>2\<^sup>-\<^sup>1\<^sup>2\<^sup>0\<close> and \<open>2\<^sup>1\<^sup>2\<^sup>0\<close> it is finite and its relative
  error is at most \<open>2\<^sup>-\<^sup>2\<^sup>3\<close>; for an elapsed time of zero it is not finite.
\<close>

theorem throughput_formula:
  assumes "0 \<le> numXYElement l" and "numXYElement l < 2 ^ 31"
    and "0 \<le> numScaleBiasMeanVarElement l" and "numScaleBiasMeanVarElement l < 2 ^ 31"
  shows "unat (num_bytes l) = spec_bytesMoved l \<and>
         (\<forall>p i st t. supports l p \<longrightarrow> timed_run l p = Inr t \<longrightarrow>
            Print_Perf t (rounded_throughput (spec_bytesMoved l) t) (GetTypeString p)
              \<in> set (snd (snd (profile_body l i p st)))) \<and>
         (\<forall>ps r st evs. profile_loop l ps 0 best_init = (r, st, evs) \<longrightarrow>
            (\<forall>t g n. Print_Perf t g n \<in> set evs \<longrightarrow>
               g = rounded_throughput (spec_bytesMoved l) t) \<and>
            (found st \<longrightarrow>
               best_gb_per_sec st = rounded_throughput (spec_bytesMoved l) (best_ave_time st) \<and>
               (\<exists>b < length ps. best_op_id st = int b \<and>
                  timed_run l (ps ! b) = Inr (best_ave_time st)))) \<and>
         (\<forall>t. t \<noteq> 0 \<longrightarrow>
            1 / 2 ^ 120 \<le> \<bar>spec_throughput (spec_bytesMoved l) t\<bar> \<longrightarrow>
            \<bar>spec_throughput (spec_bytesMoved l) t\<bar> \<le> 2 ^ 120 \<longrightarrow>
            (\<exists>g. rounded_throughput (spec_bytesMoved l) t = Finite g \<and>
               \<bar>g - spec_throughput (spec_bytesMoved l) t\<bar>
                 \<le> \<bar>spec_throughput (spec_bytesMoved l) t\<bar> / 2 ^ 23)) \<and>
         rounded_throughput (spec_bytesMoved l) 0 = NonFinite"
proof -
  have nb: "unat (num_bytes l) = spec_bytesMoved l"
    unfolding spec_bytesMoved_def using assms by (rule num_bytes_value)
  have gb: "gb_per_sec_of (num_bytes l) t = rounded_throughput (spec_bytesMoved l) t" for t
    by (simp add: gb_per_sec_of_rounded nb)
  have body: "Print_Perf t (rounded_throughput (spec_bytesMoved l) t) (GetTypeString p)
              \<in> set (snd (snd (profile_body l i p st)))"
    if "supports l p" "timed_run l p = Inr t" for p i st t
    using that by (simp add: profile_body_eval gb)
  have loop: "(\<forall>t g n. Print_Perf t g n \<in> set evs \<longrightarrow>
               g = rounded_throughput (spec_bytesMoved l) t) \<and>
            (found st \<longrightarrow>
               best_gb_per_sec st = rounded_throughput (spec_bytesMoved l) (best_ave_time st) \<and>
               (\<exists>b < length ps. best_op_id st = int b \<and>
                  timed_run l (ps ! b) = Inr (best_ave_time st)))"
    if p: "profile_loop l ps 0 best_init = (r, st, evs)" for ps r st evs
  proof (intro conjI allI impI)
    fix t g n assume "Print_Perf t g n \<in> set evs"
    with p have "profiling_event l (Print_Perf t g n)" by (rule profile_loop_events)
    then show "g = rounded_throughput (spec_bytesMoved l) t"
      by (auto simp: profiling_event_def gb)
  next
    assume f: "found st"
    from found_in_range [OF p f] show
      "best_gb_per_sec st = rounded_throughput (spec_bytesMoved l) (best_ave_time st)"
      by (auto simp: gb)
    from found_in_range [OF p f] show
      "\<exists>b < length ps. best_op_id st = int b \<and> timed_run l (ps ! b) = Inr (best_ave_time st)"
      by blast
  qed
  have close: "\<exists>g. rounded_throughput (spec_bytesMoved l) t = Finite g \<and>
               \<bar>g - spec_throughput (spec_bytesMoved l) t\<bar>
                 \<le> \<bar>spec_throughput (spec_bytesMoved l) t\<bar> / 2 ^ 23"
    if t: "t \<noteq> 0" and lo: "1 / 2 ^ 120 \<le> \<bar>spec_throughput (spec_bytesMoved l) t\<bar>"
      and hi: "\<bar>spec_throughput (spec_bytesMoved l) t\<bar> \<le> 2 ^ 120" for t
  proof -
    define B where "B = spec_bytesMoved l"
    have a: "\<bar>spec_throughput (spec_bytesMoved l) t\<bar> = real B / (10 ^ 6 * \<bar>t\<bar>)"
      by (simp add: B_def spec_throughput_def abs_mult)
    have "0 < \<bar>spec_throughput (spec_bytesMoved l) t\<bar>" using lo by (simp add: less_le_trans)
    then have "B \<noteq> 0" by (cases "B = 0") (simp_all add: B_def spec_throughput_def)
    then have B1: "1 \<le> B" by simp
    have "unat (num_bytes l) < 2 ^ 64" using unsigned_less [of "num_bytes l"] by simp
    then have B2: "B < 2 ^ 64" by (simp add: B_def nb)
    have lo': "1 / 2 ^ 120 \<le> real B / (10 ^ 6 * \<bar>t\<bar>)" using lo unfolding a .
    have hi': "real B / (10 ^ 6 * \<bar>t\<bar>) \<le> 2 ^ 120" using hi unfolding a .
    from rounded_throughput_close [OF B1 B2 t lo' hi'] show ?thesis
      unfolding B_def spec_throughput_def .
  qed
  have zero: "rounded_throughput (spec_bytesMoved l) 0 = NonFinite"
    by (simp add: rounded_throughput_def div_double_zero)
  show ?thesis using nb body loop close zero by blast
qed

theorem throughput_formula_witness:
  "(0 :: int) \<le> numXYElement example_locals \<and> numXYElement example_locals < 2 ^ 31 \<and>
   0 \<le> numScaleBiasMeanVarElement example_locals \<and>
   numScaleBiasMeanVarElement example_locals < 2 ^ 31 \<and>
   unat (num_bytes example_locals) = 33558528 \<and>
   spec_bytesMoved example_locals = 33558528 \<and>
   supports example_locals (scenario_single ! 0) \<and>
   timed_run example_locals (scenario_single ! 0) = Inr 1 \<and>
   found (fst (snd (profile_loop example_locals scenario_single 0 best_init))) \<and>
   best_ave_time (fst (snd (profile_loop example_locals scenario_single 0 best_init))) = 1 \<and>
   best_gb_per_sec (fst (snd (profile_loop example_locals scenario_single 0 best_init))) =
     Finite (8797167 / 262144) \<and>
   spec_throughput 33558528 1 = 524352 / 15625 \<and>
   \<bar>8797167 / 262144 - 524352 / 15625 :: real\<bar> \<le> \<bar>524352 / 15625\<bar> / 2 ^ 23"
proof -
  let ?l = example_locals
  let ?st = "fst (snd (profile_loop ?l scenario_single 0 best_init))"
  have h: "0 \<le> numXYElement ?l" "numXYElement ?l < 2 ^ 31"
    "0 \<le> numScaleBiasMeanVarElement ?l" "numScaleBiasMeanVarElement ?l < 2 ^ 31"
    by (simp_all add: example_elements)
  note t = throughput_formula [OF h]
  have sb: "spec_bytesMoved ?l = 33558528"
    by (simp add: spec_bytesMoved_def example_elements sizeof_XDataType_def sizeof_YDataType_def
        sizeof_ScaleDataType_def sizeof_BiasDataType_def sizeof_MeanVarDataType_def)
  from t have nb: "unat (num_bytes ?l) = 33558528" by (simp add: sb)
  obtain evs where p: "profile_loop ?l scenario_single 0 best_init = (None, ?st, evs)"
    by (simp add: single_loop)
  have f: "found ?st" and bt: "best_ave_time ?st = 1" by (simp_all add: single_loop)
  from t p f have "best_gb_per_sec ?st = rounded_throughput (spec_bytesMoved ?l) (best_ave_time ?st)"
    by blast
  then have g: "best_gb_per_sec ?st = Finite (8797167 / 262144)"
    by (simp only: sb bt rounded_throughput_example)
  have sp: "spec_throughput 33558528 1 = 524352 / 15625" by (simp add: spec_throughput_def)
  have one: "(1::real) \<noteq> 0" by simp
  have lo: "1 / 2 ^ 120 \<le> \<bar>spec_throughput (spec_bytesMoved ?l) 1\<bar>"
    unfolding sb sp by simp
  have hi: "\<bar>spec_throughput (spec_bytesMoved ?l) 1\<bar> \<le> 2 ^ 120"
    unfolding sb sp by simp
  from t one lo hi obtain g' where "rounded_throughput (spec_bytesMoved ?l) 1 = Finite g'"
    and "\<bar>g' - spec_throughput (spec_bytesMoved ?l) 1\<bar>
           \<le> \<bar>spec_throughput (spec_bytesMoved ?l) 1\<bar> / 2 ^ 23" by blast
  then have c: "\<bar>8797167 / 262144 - 524352 / 15625 :: real\<bar> \<le> \<bar>524352 / 15625\<bar> / 2 ^ 23"
    unfolding sb sp rounded_throughput_example by simp
  have s: "supports ?l (scenario_single ! 0)" "timed_run ?l (scenario_single ! 0) = Inr 1"
    by (simp_all add: scenario_single_def)
  show ?thesis using h nb sb s f bt g sp c by blast
qed

text \<open>
  The claim as stated fails: for the 33558528 bytes of the program's own problem and an
  elapsed time of 1 ms the throughput printed and kept is the \<^verbatim>\<open>float\<close> \<open>8797167 / 2\<^sup>1\<^sup>8\<close>,
  which is not the quotient \<open>524352 / 15625\<close>; and for an elapsed time of zero it is not
  a finite number.
\<close>

theorem throughput_rounded_counterexample:
  "supports example_locals (scenario_single ! 0) \<and>
   timed_run example_locals (scenario_single ! 0) = Inr 1 \<and>
   spec_bytesMoved example_locals = 33558528 \<and>
   spec_throughput (spec_bytesMoved example_locals) 1 = 524352 / 15625 \<and>
   profile_body example_locals 0 (scenario_single ! 0) best_init =
     (None, take_best example_locals 0 (scenario_single ! 0) 1 best_init,
      [Call_IsSupportedArgument 0 Profiling (make_argument_profiling example_locals) True,
       Call_Run 0 (make_argument_profiling example_locals) timed,
       Print_Perf 1 (Finite (8797167 / 262144)) ''X'']) \<and>
   best_gb_per_sec (take_best example_locals 0 (scenario_single ! 0) 1 best_init) =
     Finite (8797167 / 262144) \<and>
   Finite (8797167 / 262144) \<noteq> Finite (spec_throughput (spec_bytesMoved example_locals) 1) \<and>
   gb_per_sec_of (num_bytes example_locals) 0 = NonFinite"
proof -
  let ?l = example_locals
  have sb: "spec_bytesMoved ?l = 33558528"
    by (simp add: spec_bytesMoved_def example_elements sizeof_XDataType_def sizeof_YDataType_def
        sizeof_ScaleDataType_def sizeof_BiasDataType_def sizeof_MeanVarDataType_def)
  have nb: "unat (num_bytes ?l) = 33558528"
    by (simp add: example_locals_def main_num_bytes)
  have gb: "gb_per_sec_of (num_bytes ?l) 1 = Finite (8797167 / 262144)"
    by (simp only: gb_per_sec_of_rounded nb rounded_throughput_example)
  have sp: "spec_throughput (spec_bytesMoved ?l) 1 = 524352 / 15625"
    by (simp add: sb spec_throughput_def)
  have s: "supports ?l (scenario_single ! 0)" "timed_run ?l (scenario_single ! 0) = Inr 1"
    by (simp_all add: scenario_single_def)
  have body: "profile_body ?l 0 (scenario_single ! 0) best_init =
     (None, take_best ?l 0 (scenario_single ! 0) 1 best_init,
      [Call_IsSupportedArgument 0 Profiling (make_argument_profiling ?l) True,
       Call_Run 0 (make_argument_profiling ?l) timed,
       Print_Perf 1 (Finite (8797167 / 262144)) ''X''])"
    using s by (simp add: profile_body_eval gb FLT_MAX_value) (simp add: scenario_single_def)
  have best: "best_gb_per_sec (take_best ?l 0 (scenario_single ! 0) 1 best_init) =
     Finite (8797167 / 262144)" by (simp add: gb)
  have ne: "Finite (8797167 / 262144) \<noteq> Finite (spec_throughput (spec_bytesMoved ?l) 1)"
    unfolding sp by simp
  have z: "gb_per_sec_of (num_bytes ?l) 0 = NonFinite"
    by (simp add: gb_per_sec_of_def div_double_zero)
  show ?thesis using s sb sp body best ne z by blast
qed

subsection \<open>A support check that fails before the production run\<close>

text \<open>
  Claim C2 (amended). When the loop has found a best instance and that instance declines
  the rebuilt argument, \<^verbatim>\<open>Run\<close> is not called for it, and no error is raised or
  reported: the program prints its last line and returns 0.
\<close>

theorem mismatch_skips_silently:
  assumes "profile_loop l ps 0 best_init = (None, st, evs)"
    and "found st"
    and "\<not> IsSupportedArgument (ps ! nat (best_op_id st)) Production (make_argument_production l)"
  shows "select_and_run l ps =
           (Returned 0,
            [Print_Found (length ps), Print_RunAll] @ evs @
            [Print_BestPerf (best_ave_time st) (best_gb_per_sec st) (best_op_name st),
             Print_RunBest (GetTypeString (ps ! nat (best_op_id st))),
             Call_IsSupportedArgument (nat (best_op_id st)) Production
               (make_argument_production l) False,
             Print_Done])"
proof -
  from found_in_range [OF assms(1,2)] have rng: "0 \<le> best_op_id st" "nat (best_op_id st) < length ps"
    by auto
  show ?thesis
    using assms(1) run_best_unsupported [OF assms(2) rng assms(3)]
    by (simp add: select_and_run_def)
qed

theorem mismatch_skips_silently_witness:
  "profile_loop example_locals scenario_mismatch 0 best_init =
     (None, take_best example_locals 0 (scenario_mismatch ! 0) 1 best_init,
      [Call_IsSupportedArgument 0 Profiling (make_argument_profiling example_locals) True,
       Call_Run 0 (make_argument_profiling example_locals) timed,
       Print_Perf 1 (gb_per_sec_of (num_bytes example_locals) 1) ''X'']) \<and>
   found (take_best example_locals 0 (scenario_mismatch ! 0) 1 best_init) \<and>
   \<not> IsSupportedArgument (scenario_mismatch ! 0) Production
       (make_argument_production example_locals) \<and>
   select_and_run example_locals scenario_mismatch =
     (Returned 0,
      [Print_Found 1, Print_RunAll,
       Call_IsSupportedArgument 0 Profiling (make_argument_profiling example_locals) True,
       Call_Run 0 (make_argument_profiling example_locals) timed,
       Print_Perf 1 (gb_per_sec_of (num_bytes example_locals) 1) ''X'',
       Print_BestPerf 1 (gb_per_sec_of (num_bytes example_locals) 1) ''X'',
       Print_RunBest ''X'',
       Call_IsSupportedArgument 0 Production (make_argument_production example_locals) False,
       Print_Done])"
proof -
  let ?l = example_locals
  let ?st = "take_best ?l 0 (scenario_mismatch ! 0) 1 best_init"
  let ?evs = "[Call_IsSupportedArgument 0 Profiling (make_argument_profiling ?l) True,
       Call_Run 0 (make_argument_profiling ?l) timed,
       Print_Perf 1 (gb_per_sec_of (num_bytes ?l) 1) ''X'']"
  have h1: "profile_loop ?l scenario_mismatch 0 best_init = (None, ?st, ?evs)"
    by (simp add: mismatch_loop) (simp add: scenario_mismatch_def)
  have h2: "found ?st" by simp
  have h3: "\<not> IsSupportedArgument (scenario_mismatch ! nat (best_op_id ?st)) Production
              (make_argument_production ?l)"
    by (simp add: scenario_mismatch_def)
  from mismatch_skips_silently [OF h1 h2 h3] h1 h2 h3 show ?thesis
    by (simp add: scenario_mismatch_def)
qed

text \<open>
  The claim as stated fails: an instance that accepts the argument in the profiling loop
  and declines it before the production run makes the program return 0 after the line
  \<^verbatim>\<open>Done\<close>; there is no error.
\<close>

theorem mismatch_counterexample:
  "supports example_locals (scenario_mismatch ! 0) \<and>
   \<not> IsSupportedArgument (scenario_mismatch ! 0) Production
       (make_argument_production example_locals) \<and>
   main_prog example_buffers scenario_mismatch =
     (Returned 0,
      [Print_Found 1, Print_RunAll,
       Call_IsSupportedArgument 0 Profiling (make_argument_profiling example_locals) True,
       Call_Run 0 (make_argument_profiling example_locals) timed,
       Print_Perf 1 (gb_per_sec_of (num_bytes example_locals) 1) ''X'',
       Print_BestPerf 1 (gb_per_sec_of (num_bytes example_locals) 1) ''X'',
       Print_RunBest ''X'',
       Call_IsSupportedArgument 0 Production (make_argument_production example_locals) False,
       Print_Done])"
  by (simp add: main_prog_select select_and_run_def mismatch_loop run_best_def Let_def
      example_locals_def [symmetric])
    (simp add: scenario_mismatch_def)

subsection \<open>A run that fails in the profiling loop\<close>

text \<open>
  Claim C5 (amended). When the timed run of a supported instance fails in the profiling
  loop, the failure is not caught: it leaves the loop and the program at that instance.
  The variables keep what the instances before it gave them, the instances after it are
  neither asked nor run, and the best instance is not run.
\<close>

theorem launch_failure_leaves_loop:
  assumes "profile_loop l pre 0 best_init = (None, st, evs)"
    and "supports l p"
    and "timed_run l p = Inl e"
  shows "profile_loop l (pre @ p # post) 0 best_init =
           (Some e, st,
            evs @ [Call_IsSupportedArgument (length pre) Profiling (make_argument_profiling l) True,
                   Call_Run (length pre) (make_argument_profiling l) timed]) \<and>
         select_and_run l (pre @ p # post) =
           (Aborted e,
            [Print_Found (length (pre @ p # post)), Print_RunAll] @ evs @
            [Call_IsSupportedArgument (length pre) Profiling (make_argument_profiling l) True,
             Call_Run (length pre) (make_argument_profiling l) timed])"
proof -
  have "profile_loop l (p # post) (length pre) st =
          (Some e, st,
           [Call_IsSupportedArgument (length pre) Profiling (make_argument_profiling l) True,
            Call_Run (length pre) (make_argument_profiling l) timed])"
    using assms(2,3) by (simp add: profile_body_failed)
  then have "profile_loop l (pre @ p # post) 0 best_init =
           (Some e, st,
            evs @ [Call_IsSupportedArgument (length pre) Profiling (make_argument_profiling l) True,
                   Call_Run (length pre) (make_argument_profiling l) timed])"
    using assms(1) by (simp add: profile_loop_append)
  then show ?thesis by (simp add: select_and_run_def)
qed

theorem launch_failure_leaves_loop_witness:
  "profile_loop example_locals [] 0 best_init = (None, best_init, []) \<and>
   supports example_locals (scenario_launch_failure ! 0) \<and>
   timed_run example_locals (scenario_launch_failure ! 0) = Inl LaunchFailure \<and>
   scenario_launch_failure = [] @ scenario_launch_failure ! 0 # [scenario_launch_failure ! 1] \<and>
   select_and_run example_locals scenario_launch_failure =
     (Aborted LaunchFailure,
      [Print_Found 2, Print_RunAll,
       Call_IsSupportedArgument 0 Profiling (make_argument_profiling example_locals) True,
       Call_Run 0 (make_argument_profiling example_locals) timed])"
proof -
  let ?l = example_locals
  let ?p = "stub ''A'' True True (Inl LaunchFailure)"
  let ?q = "stub ''B'' True True (Inr 1)"
  have h1: "profile_loop ?l [] 0 best_init = (None, best_init, [])" by simp
  have h2: "supports ?l ?p" by simp
  have h3: "timed_run ?l ?p = Inl LaunchFailure" by simp
  from launch_failure_leaves_loop [OF h1 h2 h3, of "[?q]"] h1 h2 h3 show ?thesis
    by (simp add: scenario_launch_failure_def)
qed

text \<open>
  The claim as stated fails: with a first instance whose run fails and a second one that
  works, the program ends with the failure after the first run, and the second instance
  is never profiled.
\<close>

theorem launch_failure_counterexample:
  "supports example_locals (scenario_launch_failure ! 0) \<and>
   timed_run example_locals (scenario_launch_failure ! 0) = Inl LaunchFailure \<and>
   supports example_locals (scenario_launch_failure ! 1) \<and>
   timed_run example_locals (scenario_launch_failure ! 1) = Inr 1 \<and>
   main_prog example_buffers scenario_launch_failure =
     (Aborted LaunchFailure,
      [Print_Found 2, Print_RunAll,
       Call_IsSupportedArgument 0 Profiling (make_argument_profiling example_locals) True,
       Call_Run 0 (make_argument_profiling example_locals) timed])"
  by (simp add: main_prog_select select_and_run_def scenario_launch_failure_def
      profile_body_eval example_locals_def [symmetric])

end
